theory Spec2Isabelle
  imports Main "HOL-Library.Word" "HOL-Library.Sublist"
begin

section \<open>Values shared by the model and controller packages\<close>

text \<open>
  \<open>primitive.ObjectID\<close> is a 12-byte array; it is represented by its rendering
  \<open>Hex()\<close>, 24 lowercase hexadecimal digits. \<open>time.Time\<close> is an integer instant.
\<close>

datatype ObjectID = ObjectID (Hex: string)

definition NilObjectID :: ObjectID where
  "NilObjectID = ObjectID ''000000000000000000000000''"

type_synonym Time = int

datatype error =
    ErrUnavailable
  | ErrNoResult
  | ErrNoDocuments
  | ErrDriver
  | ErrInvalidHex
  | ErrNew string
  | ErrIO
  | ErrPanic

text \<open>
  \<open>ErrUnavailable\<close> and \<open>ErrNoResult\<close> are the model package's own errors;
  \<open>ErrNoDocuments\<close> is the driver's \<open>mongo.ErrNoDocuments\<close>; \<open>ErrDriver\<close> stands for
  every other failure of a call handed to the driver (server unreachable, deadline
  exceeded); \<open>ErrNew s\<close> is \<open>errors.New(s)\<close>; \<open>ErrIO\<close> is a failure of the file
  system or of the upload stream; \<open>ErrPanic\<close> is a run-time panic. A Go \<open>error\<close> is an \<open>error option\<close>, \<open>None\<close> being
  \<open>nil\<close>, and a Go result \<open>(T, error)\<close> is a pair, since callers read the value even
  when they drop the error.
\<close>

definition ascii_lower :: "char \<Rightarrow> char" where
  "ascii_lower c =
     (case map_of (zip ''ABCDEFGHIJKLMNOPQRSTUVWXYZ'' ''abcdefghijklmnopqrstuvwxyz'') c of
        None \<Rightarrow> c
      | Some l \<Rightarrow> l)"

definition is_hex_digit :: "char \<Rightarrow> bool" where
  "is_hex_digit c = (c \<in> set ''0123456789abcdefABCDEF'')"

definition is_alnum :: "char \<Rightarrow> bool" where
  "is_alnum c =
     (c \<in> set ''0123456789abcdefghijklmnopqrstuvwxyzABCDEFGHIJKLMNOPQRSTUVWXYZ'')"

text \<open>\<open>primitive.ObjectIDFromHex\<close>: 24 hexadecimal digits of either case, or an error
  together with the nil id.\<close>

definition ObjectIDFromHex :: "string \<Rightarrow> ObjectID \<times> error option" where
  "ObjectIDFromHex s =
     (if length s = 24 \<and> list_all is_hex_digit s
      then (ObjectID (map ascii_lower s), None)
      else (NilObjectID, Some ErrInvalidHex))"

section \<open>Paths: the functions of \<open>path/filepath\<close> and \<open>strings\<close> the upload uses\<close>

text \<open>
  The separator is \<open>/\<close>. \<open>split_sep\<close> is \<open>strings.Split(s, "/")\<close> and \<open>join_sep\<close> is
  \<open>strings.Join(elems, "/")\<close>.
\<close>

definition sep :: char where
  "sep = CHR ''/''"

fun split_sep :: "string \<Rightarrow> string list" where
  "split_sep [] = [[]]"
| "split_sep (c # cs) =
     (if c = sep then [] # split_sep cs
      else (case split_sep cs of [] \<Rightarrow> [[c]] | e # es \<Rightarrow> (c # e) # es))"

fun join_sep :: "string list \<Rightarrow> string" where
  "join_sep [] = []"
| "join_sep [e] = e"
| "join_sep (e # es) = e @ sep # join_sep es"

text \<open>
  \<open>filepath.Clean\<close>, element by element. The output elements are kept on a stack, last
  element first. An empty element and \<open>.\<close> are dropped; \<open>..\<close> removes the element before
  it when that is an ordinary one, is dropped at the top of a rooted path, and is kept
  at the front of a relative one; every other element is copied.
\<close>

fun clean_step :: "bool \<Rightarrow> string list \<Rightarrow> string \<Rightarrow> string list" where
  "clean_step rooted out e =
     (if e = [] \<or> e = ''.'' then out
      else if e = ''..'' then
        (case out of
           [] \<Rightarrow> (if rooted then [] else [''..''])
         | t # ts \<Rightarrow> (if t = ''..'' then ''..'' # out else ts))
      else e # out)"

definition clean_elems :: "bool \<Rightarrow> string list \<Rightarrow> string list" where
  "clean_elems rooted es = rev (foldl (clean_step rooted) [] es)"

definition filepath_Clean :: "string \<Rightarrow> string" where
  "filepath_Clean path =
     (if path = [] then ''.''
      else
        (let rooted = (hd path = sep);
             out = (if rooted then [sep] else []) @ join_sep (clean_elems rooted (split_sep path))
         in if out = [] then ''.'' else out))"

text \<open>\<open>filepath.Join\<close>: leading empty elements are ignored, the rest is joined with the
  separator and cleaned; with no non-empty element the result is empty.\<close>

definition filepath_Join :: "string list \<Rightarrow> string" where
  "filepath_Join elem =
     (case dropWhile (\<lambda>e. e = []) elem of
        [] \<Rightarrow> []
      | es \<Rightarrow> filepath_Clean (join_sep es))"

text \<open>\<open>filepath.Base\<close>: trailing separators are stripped, then the last element is
  taken; the empty path gives \<open>.\<close> and a path of separators only gives \<open>/\<close>.\<close>

definition filepath_Base :: "string \<Rightarrow> string" where
  "filepath_Base path =
     (if path = [] then ''.''
      else
        (let stripped = rev (dropWhile (\<lambda>c. c = sep) (rev path));
             elem = rev (takeWhile (\<lambda>c. c \<noteq> sep) (rev stripped))
         in if elem = [] then [sep] else elem))"

definition strings_HasPrefix :: "string \<Rightarrow> string \<Rightarrow> bool" where
  "strings_HasPrefix s pre = prefix pre s"

section \<open>Storage configuration (app/shared/storage/storage.go)\<close>

record Info =
  CrackmePath :: string
  SolutionPath :: string

text \<open>The environment is a function from variable names to values, the unset variable
  being the empty string, as \<open>os.Getenv\<close> reports it.\<close>

definition Configure :: "(string \<Rightarrow> string) \<Rightarrow> Info" where
  "Configure getenv =
     (let crackmePath = getenv ''CRACKME_STORAGE_PATH'';
          crackmePath = (if crackmePath = [] then ''tmp/crackme'' else crackmePath);
          solutionPath = getenv ''SOLUTION_STORAGE_PATH'';
          solutionPath = (if solutionPath = [] then ''tmp/solution'' else solutionPath)
      in \<lparr>CrackmePath = crackmePath, SolutionPath = solutionPath\<rparr>)"

definition GetCrackmePath :: "Info \<Rightarrow> string" where
  "GetCrackmePath config = CrackmePath config"

definition GetSolutionPath :: "Info \<Rightarrow> string" where
  "GetSolutionPath config = SolutionPath config"

section \<open>Documents and filters of the store driver\<close>

text \<open>
  A filter (\<open>bson.M\<close>) lists field names with the value each must have; a value is a
  string, a boolean, an object id, an instant, an integer or a regular expression
  (\<open>primitive.Regex\<close>). A stored document lists its fields the same way.
\<close>

datatype Regex = Regex (Pattern: string) (Options: string)

datatype bson =
    BString string
  | BBool bool
  | BObjectID ObjectID
  | BTime Time
  | BInt int
  | BRegex Regex

type_synonym document = "(string \<times> bson) list"

text \<open>The struct tag \<open>omitempty\<close> leaves a field with the zero value of its type out of
  the stored document.\<close>

fun is_zero :: "bson \<Rightarrow> bool" where
  "is_zero (BString s) = (s = [])"
| "is_zero (BBool b) = (\<not> b)"
| "is_zero (BObjectID i) = (i = NilObjectID)"
| "is_zero (BTime t) = (t = 0)"
| "is_zero (BInt n) = (n = 0)"
| "is_zero (BRegex r) = (Pattern r = [] \<and> Options r = [])"

definition omitempty :: "string \<Rightarrow> bson \<Rightarrow> document" where
  "omitempty key v = (if is_zero v then [] else [(key, v)])"

text \<open>
  A field of a filter matches a document that has the field with an equal value; a
  regular expression in the filter matches a string field that the store's matcher
  accepts. The matcher belongs to the store server and is a parameter \<open>rx\<close>.
\<close>

fun value_matches :: "(Regex \<Rightarrow> string \<Rightarrow> bool) \<Rightarrow> bson \<Rightarrow> bson \<Rightarrow> bool" where
  "value_matches rx (BRegex r) (BString s) = rx r s"
| "value_matches rx q v = (q = v)"

definition doc_matches :: "(Regex \<Rightarrow> string \<Rightarrow> bool) \<Rightarrow> document \<Rightarrow> document \<Rightarrow> bool" where
  "doc_matches rx flt doc =
     list_all (\<lambda>(key, q). case map_of doc key of None \<Rightarrow> False | Some v \<Rightarrow> value_matches rx q v) flt"

text \<open>
  The matcher used where a run needs a concrete one. It knows the patterns the model
  package builds, \<open>^\<close> text \<open>$\<close> with a text of letters and digits, which it compares
  with the whole string, ignoring letter case under the option \<open>i\<close>; it accepts
  nothing else.
\<close>

definition anchored_text :: "string \<Rightarrow> string option" where
  "anchored_text pat =
     (if 2 \<le> length pat \<and> hd pat = CHR ''^'' \<and> last pat = CHR ''$''
         \<and> list_all is_alnum (butlast (tl pat))
      then Some (butlast (tl pat)) else None)"

definition literal_matcher :: "Regex \<Rightarrow> string \<Rightarrow> bool" where
  "literal_matcher r s =
     (case anchored_text (Pattern r) of
        None \<Rightarrow> False
      | Some t \<Rightarrow>
          (if Options r = ''i'' then map ascii_lower t = map ascii_lower s
           else Options r = [] \<and> t = s))"

text \<open>What every sound matcher does on those patterns under the option \<open>i\<close>.\<close>

definition folds_case :: "(Regex \<Rightarrow> string \<Rightarrow> bool) \<Rightarrow> bool" where
  "folds_case rx =
     (\<forall>t s. list_all is_alnum t \<longrightarrow>
        rx (Regex (''^'' @ t @ ''$'') ''i'') s = (map ascii_lower t = map ascii_lower s))"

section \<open>Entities (app/model)\<close>

record User =
  ObjectId :: ObjectID
  HexId :: string
  Name :: string
  Email :: string
  Password :: string
  Visible :: bool
  Deleted :: bool
  NbCrackmes :: int
  NbSolutions :: int
  NbComments :: int

record Comment =
  ObjectId :: ObjectID
  Content :: string
  Author :: string
  CrackMeHexId :: string
  CrackmeName :: string
  CreatedAt :: Time
  Visible :: bool
  Deleted :: bool

record Solution =
  ObjectId :: ObjectID
  HexId :: string
  Info :: string
  CrackmeId :: ObjectID
  CrackmeHexId :: string
  CrackmeName :: string
  CreatedAt :: Time
  Author :: string
  Visible :: bool
  Deleted :: bool

text \<open>
  The \<open>Crackme\<close> struct, with the fields the test helper \<open>MockCrackme\<close> fills in; its two
  floating-point ratings, which no operation below reads, are left out.
\<close>

record Crackme =
  ObjectId :: ObjectID
  HexId :: string
  Name :: string
  Info :: string
  Lang :: string
  Arch :: string
  Author :: string
  CreatedAt :: Time
  Visible :: bool
  Deleted :: bool
  NbSolutions :: int
  NbComments :: int
  Platform :: string

text \<open>Modelled from the spec: the notification entity, whose declaration is not among the
  sources: recipient (a user name), message text and creation instant.\<close>

record Notification =
  Recipient :: string
  Message :: string
  CreatedAt :: Time

text \<open>The zero values of the structs (\<open>User{}\<close>, \<open>Solution{}\<close>, ...).\<close>

definition User_zero :: User where
  "User_zero = \<lparr>User.ObjectId = NilObjectID, HexId = [], Name = [], Email = [], Password = [],
     Visible = False, Deleted = False, NbCrackmes = 0, NbSolutions = 0, NbComments = 0\<rparr>"

definition Solution_zero :: Solution where
  "Solution_zero = \<lparr>Solution.ObjectId = NilObjectID, HexId = [], Info = [],
     CrackmeId = NilObjectID, CrackmeHexId = [], CrackmeName = [], CreatedAt = 0, Author = [],
     Visible = False, Deleted = False\<rparr>"

definition Crackme_zero :: Crackme where
  "Crackme_zero = \<lparr>Crackme.ObjectId = NilObjectID, HexId = [], Name = [], Info = [], Lang = [],
     Arch = [], Author = [], CreatedAt = 0, Visible = False, Deleted = False, NbSolutions = 0,
     NbComments = 0, Platform = []\<rparr>"

text \<open>The stored form of each struct, field by field from its \<open>bson\<close> tags; a field without
  a tag is stored under its lower-cased name.\<close>

definition User_bson :: "User \<Rightarrow> document" where
  "User_bson u =
     omitempty ''_id'' (BObjectID (User.ObjectId u)) @
     omitempty ''hexid'' (BString (User.HexId u)) @
     omitempty ''name'' (BString (User.Name u)) @
     omitempty ''email'' (BString (User.Email u)) @
     omitempty ''password'' (BString (User.Password u)) @
     [(''visible'', BBool (User.Visible u)),
      (''deleted'', BBool (User.Deleted u)),
      (''nbcrackmes'', BInt (User.NbCrackmes u)),
      (''nbsolutions'', BInt (User.NbSolutions u)),
      (''nbcomments'', BInt (User.NbComments u))]"

definition Comment_bson :: "Comment \<Rightarrow> document" where
  "Comment_bson c =
     omitempty ''_id'' (BObjectID (Comment.ObjectId c)) @
     omitempty ''info'' (BString (Comment.Content c)) @
     omitempty ''author'' (BString (Comment.Author c)) @
     omitempty ''crackmehexid'' (BString (Comment.CrackMeHexId c)) @
     omitempty ''crackmename'' (BString (Comment.CrackmeName c)) @
     [(''created_at'', BTime (Comment.CreatedAt c)),
      (''visible'', BBool (Comment.Visible c)),
      (''deleted'', BBool (Comment.Deleted c))]"

definition Solution_bson :: "Solution \<Rightarrow> document" where
  "Solution_bson s =
     omitempty ''_id'' (BObjectID (Solution.ObjectId s)) @
     omitempty ''hexid'' (BString (Solution.HexId s)) @
     [(''info'', BString (Solution.Info s))] @
     omitempty ''crackmeid'' (BObjectID (Solution.CrackmeId s)) @
     omitempty ''crackmehexid'' (BString (Solution.CrackmeHexId s)) @
     omitempty ''crackmename'' (BString (Solution.CrackmeName s)) @
     [(''created_at'', BTime (Solution.CreatedAt s))] @
     omitempty ''author'' (BString (Solution.Author s)) @
     [(''visible'', BBool (Solution.Visible s)),
      (''deleted'', BBool (Solution.Deleted s))]"

section \<open>The store and the driver calls\<close>

text \<open>
  The store holds each collection as the list of its documents in insertion order,
  decoded into the structs. \<open>connected\<close> says whether the backing store can be reached;
  \<open>matcher\<close> is the server's regular-expression matcher.
\<close>

record Store =
  connected :: bool
  matcher :: "Regex \<Rightarrow> string \<Rightarrow> bool"
  coll_user :: "User list"
  coll_crackme :: "Crackme list"
  coll_solution :: "Solution list"
  coll_comment :: "Comment list"
  coll_notification :: "Notification list"

text \<open>Modelled from the spec: \<open>database.CheckConnection\<close>, which is not among the sources,
  reports whether the backing store is reachable.\<close>

definition CheckConnection :: "Store \<Rightarrow> bool" where
  "CheckConnection st = connected st"

text \<open>Modelled from the spec: \<open>standardizeError\<close>, which is not among the sources, turns the
  driver's "no document" into the standardized not-found error and keeps every other
  error.\<close>

definition standardizeError :: "error option \<Rightarrow> error option" where
  "standardizeError err = (if err = Some ErrNoDocuments then Some ErrNoResult else err)"

text \<open>
  The calls handed to the driver. On an unreachable store a call fails with a driver
  error; on a reachable one \<open>FindOne\<close> gives the first document that matches,
  \<open>CountDocuments\<close> the number of those that match, \<open>Find\<close> all of them, sorted and cut
  as the options say, \<open>InsertOne\<close> appends the document and \<open>UpdateOne\<close> changes the
  first document that matches and reports how many matched.
\<close>

definition FindOne ::
  "Store \<Rightarrow> ('a \<Rightarrow> document) \<Rightarrow> 'a list \<Rightarrow> document \<Rightarrow> error + 'a" where
  "FindOne st enc coll flt =
     (if \<not> connected st then Inl ErrDriver
      else (case find (\<lambda>d. doc_matches (matcher st) flt (enc d)) coll of
              None \<Rightarrow> Inl ErrNoDocuments
            | Some d \<Rightarrow> Inr d))"

text \<open>\<open>Decode(&result)\<close> fills \<open>result\<close> with the document found and leaves it as it was on
  an error.\<close>

definition Decode :: "error + 'a \<Rightarrow> 'a \<Rightarrow> 'a \<times> error option" where
  "Decode res result = (case res of Inl e \<Rightarrow> (result, Some e) | Inr d \<Rightarrow> (d, None))"

definition CountDocuments ::
  "Store \<Rightarrow> ('a \<Rightarrow> document) \<Rightarrow> 'a list \<Rightarrow> document \<Rightarrow> int \<times> error option" where
  "CountDocuments st enc coll flt =
     (if \<not> connected st then (0, Some ErrDriver)
      else (int (length (filter (\<lambda>d. doc_matches (matcher st) flt (enc d)) coll)), None))"

datatype FindOptions = FindOptions (Sort: "(string \<times> int) option") (Limit: "int option")

definition sort_value :: "document \<Rightarrow> string \<Rightarrow> int" where
  "sort_value doc key =
     (case map_of doc key of Some (BTime t) \<Rightarrow> t | Some (BInt n) \<Rightarrow> n | _ \<Rightarrow> 0)"

definition apply_sort :: "('a \<Rightarrow> document) \<Rightarrow> (string \<times> int) option \<Rightarrow> 'a list \<Rightarrow> 'a list" where
  "apply_sort enc srt docs =
     (case srt of
        None \<Rightarrow> docs
      | Some (key, dir) \<Rightarrow>
          (if dir < 0 then sort_key (\<lambda>d. - sort_value (enc d) key) docs
           else sort_key (\<lambda>d. sort_value (enc d) key) docs))"

definition apply_limit :: "int option \<Rightarrow> 'a list \<Rightarrow> 'a list" where
  "apply_limit lim docs =
     (case lim of
        None \<Rightarrow> docs
      | Some n \<Rightarrow> (if n = 0 then docs else take (nat \<bar>n\<bar>) docs))"

definition Find ::
  "Store \<Rightarrow> ('a \<Rightarrow> document) \<Rightarrow> 'a list \<Rightarrow> document \<Rightarrow> FindOptions \<Rightarrow> error + 'a list" where
  "Find st enc coll flt opts =
     (if \<not> connected st then Inl ErrDriver
      else Inr (apply_limit (Limit opts)
                  (apply_sort enc (Sort opts)
                     (filter (\<lambda>d. doc_matches (matcher st) flt (enc d)) coll))))"

definition InsertOne ::
  "Store \<Rightarrow> (('a list \<Rightarrow> 'a list) \<Rightarrow> Store \<Rightarrow> Store) \<Rightarrow> 'a \<Rightarrow> Store \<times> error option" where
  "InsertOne st coll_update doc =
     (if \<not> connected st then (st, Some ErrDriver)
      else (coll_update (\<lambda>coll. coll @ [doc]) st, None))"

fun update_first :: "('a \<Rightarrow> bool) \<Rightarrow> ('a \<Rightarrow> 'a) \<Rightarrow> 'a list \<Rightarrow> 'a list \<times> int" where
  "update_first P f [] = ([], 0)"
| "update_first P f (d # ds) =
     (if P d then (f d # ds, 1)
      else (let (ds', matched) = update_first P f ds in (d # ds', matched)))"

definition UpdateOne ::
  "Store \<Rightarrow> ('a \<Rightarrow> document) \<Rightarrow> (Store \<Rightarrow> 'a list) \<Rightarrow>
   (('a list \<Rightarrow> 'a list) \<Rightarrow> Store \<Rightarrow> Store) \<Rightarrow> document \<Rightarrow> ('a \<Rightarrow> 'a) \<Rightarrow> Store \<times> (error + int)" where
  "UpdateOne st enc coll coll_update flt upd =
     (if \<not> connected st then (st, Inl ErrDriver)
      else (let (docs, matched) =
                  update_first (\<lambda>d. doc_matches (matcher st) flt (enc d)) upd (coll st)
            in (coll_update (\<lambda>_. docs) st, Inr matched)))"

section \<open>Operations of the model package\<close>

subsection \<open>Operations whose source is not among the files\<close>

text \<open>Modelled from the spec: \<open>CrackmeByHexId\<close> (find-by-hex-id) returns the crackme with
  the given hex id or the not-found error, and the store-unavailable error when the
  store is unreachable.\<close>

definition CrackmeByHexId :: "Store \<Rightarrow> string \<Rightarrow> Crackme \<times> error option" where
  "CrackmeByHexId st hexid =
     (if CheckConnection st then
        (case find (\<lambda>c. Crackme.HexId c = hexid) (coll_crackme st) of
           None \<Rightarrow> (Crackme_zero, Some ErrNoResult)
         | Some c \<Rightarrow> (c, None))
      else (Crackme_zero, Some ErrUnavailable))"

text \<open>Modelled from the spec: \<open>NotificationAdd\<close> appends a notification for the recipient,
  and fails with the store-unavailable error when the store is unreachable.\<close>

definition NotificationAdd :: "Store \<Rightarrow> Time \<Rightarrow> string \<Rightarrow> string \<Rightarrow> Store \<times> error option" where
  "NotificationAdd st now recipient message =
     (if CheckConnection st then
        (let (st', err) = InsertOne st coll_notification_update
                            \<lparr>Recipient = recipient, Message = message, CreatedAt = now\<rparr>
         in (st', standardizeError err))
      else (st, standardizeError (Some ErrUnavailable)))"

subsection \<open>app/model/user.go\<close>

definition CountUsers :: "Store \<Rightarrow> int \<times> error option" where
  "CountUsers st =
     (if CheckConnection st then
        (let (nb, err) = CountDocuments st User_bson (coll_user st) []
         in (nb, standardizeError err))
      else (0, standardizeError (Some ErrUnavailable)))"

definition UserByName :: "Store \<Rightarrow> string \<Rightarrow> User \<times> error option" where
  "UserByName st name =
     (let result = User_zero in
      if CheckConnection st then
        (let (result, err) =
               Decode (FindOne st User_bson (coll_user st)
                         [(''name'', BRegex (Regex (''^'' @ name @ ''$'') ''i''))]) result
         in (result, standardizeError err))
      else (result, standardizeError (Some ErrUnavailable)))"

definition UserByMail :: "Store \<Rightarrow> string \<Rightarrow> User \<times> error option" where
  "UserByMail st email =
     (let result = User_zero in
      if CheckConnection st then
        (let (result, err) =
               Decode (FindOne st User_bson (coll_user st)
                         [(''email'', BRegex (Regex (''^'' @ email @ ''$'') ''i''))]) result
         in (result, standardizeError err))
      else (result, standardizeError (Some ErrUnavailable)))"

definition UserByHexId :: "Store \<Rightarrow> string \<Rightarrow> User \<times> error option" where
  "UserByHexId st hexid =
     (let result = User_zero in
      if CheckConnection st then
        (let (result, err) =
               Decode (FindOne st User_bson (coll_user st) [(''hexid'', BString hexid)]) result
         in (result, standardizeError err))
      else (result, standardizeError (Some ErrUnavailable)))"

definition UserCreate :: "Store \<Rightarrow> ObjectID \<Rightarrow> string \<Rightarrow> string \<Rightarrow> string \<Rightarrow> Store \<times> error option" where
  "UserCreate st objId name email password =
     (if CheckConnection st then
        (let user = \<lparr>User.ObjectId = objId, HexId = Hex objId, Name = name, Email = email,
                      Password = password, Visible = True, Deleted = False,
                      NbCrackmes = 0, NbSolutions = 0, NbComments = 0\<rparr>;
             (st', err) = InsertOne st coll_user_update user
         in (st', standardizeError err))
      else (st, standardizeError (Some ErrUnavailable)))"

text \<open>\<open>UpdateUserPassword\<close> validates its arguments and hands the update to the driver; it
  does not ask \<open>CheckConnection\<close>.\<close>

definition UpdateUserPassword :: "Store \<Rightarrow> string \<Rightarrow> string \<Rightarrow> Store \<times> error option" where
  "UpdateUserPassword st username hashedPassword =
     (if username = [] then (st, Some (ErrNew ''username cannot be empty''))
      else if hashedPassword = [] then (st, Some (ErrNew ''hashed password cannot be empty''))
      else
        (case UpdateOne st User_bson coll_user coll_user_update
                [(''name'', BString username)] (\<lambda>u. u\<lparr>User.Password := hashedPassword\<rparr>) of
           (st', Inl err) \<Rightarrow> (st', Some err)
         | (st', Inr matched) \<Rightarrow>
             (if matched = 0
              then (st', Some (ErrNew ''no user found with the provided username''))
              else (st', None))))"

subsection \<open>app/model/comment.go\<close>

definition CountCommentsByUser :: "Store \<Rightarrow> string \<Rightarrow> int \<times> error option" where
  "CountCommentsByUser st username =
     (if CheckConnection st then
        (let (nb, err) = CountDocuments st Comment_bson (coll_comment st)
                           [(''author'', BString username)]
         in (nb, standardizeError err))
      else (0, standardizeError (Some ErrUnavailable)))"

definition CountCommentsByCrackme :: "Store \<Rightarrow> string \<Rightarrow> int \<times> error option" where
  "CountCommentsByCrackme st crackmehexid =
     (if CheckConnection st then
        (let (nb, err) = CountDocuments st Comment_bson (coll_comment st)
                           [(''crackmehexid'', BString crackmehexid), (''visible'', BBool True)]
         in (nb, standardizeError err))
      else (0, standardizeError (Some ErrUnavailable)))"

text \<open>In \<open>CommentsByUser\<close> the cursor returned by \<open>Find\<close> is read without looking at the
  error of \<open>Find\<close>: a failed \<open>Find\<close> leaves a nil cursor, and reading it panics.\<close>

definition CommentsByUser :: "Store \<Rightarrow> string \<Rightarrow> Comment list \<times> error option" where
  "CommentsByUser st name =
     (if CheckConnection st then
        (let opts = FindOptions (Some (''created_at'', -1)) (Some 50)
         in (case Find st Comment_bson (coll_comment st)
                    [(''author'', BString name), (''visible'', BBool True)] opts of
               Inl err \<Rightarrow> ([], Some ErrPanic)
             | Inr result \<Rightarrow> (result, None)))
      else ([], Some ErrUnavailable))"

definition CommentCreate ::
  "Store \<Rightarrow> ObjectID \<Rightarrow> Time \<Rightarrow> string \<Rightarrow> string \<Rightarrow> string \<Rightarrow> Store \<times> error option" where
  "CommentCreate st objId now content username crackmehexid =
     (let (crackme, err) = CrackmeByHexId st crackmehexid in
      if err \<noteq> None then (st, standardizeError err)
      else if CheckConnection st then
        (let comment = \<lparr>Comment.ObjectId = objId, Content = content, Author = username,
                         CrackMeHexId = crackmehexid, CrackmeName = Crackme.Name crackme,
                         CreatedAt = now, Visible = True, Deleted = False\<rparr>;
             (st', err) = InsertOne st coll_comment_update comment
         in (st', standardizeError err))
      else (st, standardizeError (Some ErrUnavailable)))"

subsection \<open>app/model/solution.go\<close>

definition CountSolutionsByUser :: "Store \<Rightarrow> string \<Rightarrow> int \<times> error option" where
  "CountSolutionsByUser st username =
     (if CheckConnection st then
        (let (nb, err) = CountDocuments st Solution_bson (coll_solution st)
                           [(''author'', BString username), (''visible'', BBool True)]
         in (nb, standardizeError err))
      else (0, standardizeError (Some ErrUnavailable)))"

text \<open>In \<open>CountSolutionsByCrackme\<close> the error of \<open>ObjectIDFromHex\<close> is overwritten by the
  count's; an ill-formed hex id is counted under the nil id.\<close>

definition CountSolutionsByCrackme :: "Store \<Rightarrow> string \<Rightarrow> int \<times> error option" where
  "CountSolutionsByCrackme st crackmehexid =
     (if CheckConnection st then
        (let (objid, err) = ObjectIDFromHex crackmehexid;
             (nb, err) = CountDocuments st Solution_bson (coll_solution st)
                           [(''crackmeid'', BObjectID objid), (''visible'', BBool True)]
         in (nb, standardizeError err))
      else (0, standardizeError (Some ErrUnavailable)))"

definition SolutionByHexId :: "Store \<Rightarrow> string \<Rightarrow> Solution \<times> error option" where
  "SolutionByHexId st hexid =
     (let result = Solution_zero in
      if CheckConnection st then
        Decode (FindOne st Solution_bson (coll_solution st)
                  [(''hexid'', BString hexid), (''visible'', BBool True)]) result
      else (result, Some ErrUnavailable))"

definition SolutionsByUserAndCrackMe :: "Store \<Rightarrow> string \<Rightarrow> string \<Rightarrow> Solution \<times> error option" where
  "SolutionsByUserAndCrackMe st username crackmehexid =
     (let result = Solution_zero;
          (crackme, _) = CrackmeByHexId st crackmehexid in
      if CheckConnection st then
        Decode (FindOne st Solution_bson (coll_solution st)
                  [(''crackmeid'', BObjectID (Crackme.ObjectId crackme)),
                   (''author'', BString username)]) result
      else (result, Some ErrUnavailable))"

definition SolutionCreate ::
  "Store \<Rightarrow> ObjectID \<Rightarrow> Time \<Rightarrow> string \<Rightarrow> string \<Rightarrow> string \<Rightarrow> Store \<times> error option" where
  "SolutionCreate st objId now info username crackmehexid =
     (let (crackme, err) = CrackmeByHexId st crackmehexid in
      if err \<noteq> None then (st, standardizeError err)
      else if CheckConnection st then
        (let solution = \<lparr>Solution.ObjectId = objId, HexId = Hex objId, Info = info,
                          CrackmeId = Crackme.ObjectId crackme,
                          CrackmeHexId = Crackme.HexId crackme,
                          CrackmeName = Crackme.Name crackme, CreatedAt = now,
                          Author = username, Visible = False, Deleted = False\<rparr>;
             (st', err) = InsertOne st coll_solution_update solution
         in (st', standardizeError err))
      else (st, standardizeError (Some ErrUnavailable)))"

section \<open>The controllers\<close>

text \<open>
  What a handler leaves behind: the store, the files on disk (path to content), the
  flash messages saved in the session, and how often the payload of a solution
  upload has been read into memory, be it by the multipart parser of \<open>net/http\<close> or
  by \<open>io.ReadAll\<close>. \<open>refuses\<close> tells at which paths \<open>os.WriteFile\<close> fails. Log
  lines are not part of the state.
\<close>

datatype FlashKind = FlashError | FlashSuccess

datatype Flash = Flash string FlashKind

record World =
  store :: Store
  files :: "string \<Rightarrow> string option"
  refuses :: "string \<Rightarrow> bool"
  flashes :: "Flash list"
  payload_reads :: nat

text \<open>The answer written to the client: nothing, the page of the GET handler the POST
  handler falls back to, the text of an error, or a redirect.\<close>

datatype Response =
    NoResponse
  | UploadSolutionGET_page
  | CrackMeGET_page
  | Body error
  | Redirect string

record FileHeader =
  Filename :: string
  Size :: "64 word"

text \<open>
  A request: the route parameters, the user name held by the session, the form values,
  the uploaded file as \<open>r.FormFile\<close> gives it (\<open>None\<close> when the field is missing; else
  the header, whose \<open>Size\<close> is the size the parser measured, and what \<open>io.ReadAll\<close>
  will return for the stream), and the verdict of \<open>recaptcha.Verified\<close>.
\<close>

record Request =
  params :: "string \<Rightarrow> string"
  session_name :: string
  form :: "string \<Rightarrow> string"
  form_file :: "(FileHeader \<times> (error + string)) option"
  recaptcha_verified :: bool

text \<open>
  What a handler takes from outside the repository: the two functions of the
  \<open>sanitize\<close> library, the process environment read once by \<open>storage.Configure\<close>, the
  object id \<open>primitive.NewObjectID()\<close> hands out and the clock.
\<close>

record Runtime =
  sanitize_HTML :: "string \<Rightarrow> string"
  sanitize_Name :: "string \<Rightarrow> string"
  getenv :: "string \<Rightarrow> string"
  NewObjectID :: ObjectID
  Now :: Time

definition config :: "Runtime \<Rightarrow> Info" where
  "config rt = Configure (getenv rt)"

definition AddFlash :: "World \<Rightarrow> string \<Rightarrow> FlashKind \<Rightarrow> World" where
  "AddFlash w msg kind = w\<lparr>flashes := flashes w @ [Flash msg kind]\<rparr>"

definition os_WriteFile :: "World \<Rightarrow> string \<Rightarrow> string \<Rightarrow> World \<times> error option" where
  "os_WriteFile w name data =
     (if refuses w name then (w, Some ErrIO)
      else (w\<lparr>files := (files w)(name \<mapsto> data)\<rparr>, None))"

definition quote :: string where
  "quote = [CHR 0x27]"

text \<open>Modelled from the spec: \<open>view.Validate\<close>, which is not among the sources, reports the
  first required field whose form value is empty.\<close>

definition Validate :: "Request \<Rightarrow> string list \<Rightarrow> bool \<times> string" where
  "Validate r required =
     (case find (\<lambda>v. form r v = []) required of
        None \<Rightarrow> (True, [])
      | Some v \<Rightarrow> (False, v))"

text \<open>
  \<open>r.FormValue\<close> and \<open>r.FormFile\<close> parse the multipart form when the first of them is
  called (\<open>ParseMultipartForm\<close> with the default limit): \<open>net/http\<close> reads the whole
  request body and keeps its file parts, up to 32 MB, in memory. A request that
  carries a file has had its payload read once when the call returns.
\<close>

definition ParseMultipartForm :: "World \<Rightarrow> Request \<Rightarrow> World" where
  "ParseMultipartForm w r =
     (case form_file r of
        None \<Rightarrow> w
      | Some _ \<Rightarrow> w\<lparr>payload_reads := payload_reads w + 1\<rparr>)"

text \<open>The name and the path of the stored file, as \<open>UploadSolutionPOST\<close> builds them
  from the name the client sent.\<close>

definition upload_name :: "Runtime \<Rightarrow> string \<Rightarrow> string \<Rightarrow> string \<Rightarrow> string" where
  "upload_name rt username hexid filename =
     (let filename = filepath_Base filename;
          filename = sanitize_Name rt filename
      in username @ ''+++'' @ hexid @ ''+++'' @ filename)"

definition upload_safePath :: "Runtime \<Rightarrow> string \<Rightarrow> string \<Rightarrow> string \<Rightarrow> string" where
  "upload_safePath rt username hexid filename =
     filepath_Join [GetSolutionPath (config rt), upload_name rt username hexid filename]"

text \<open>
  \<open>UploadSolutionPOST\<close> is given in two parts. \<open>upload_persist\<close> is its second half, from
  the call of \<open>SolutionCreate\<close> to the end, entered once the payload has been read:
  the record is created and looked up again, the path is built and checked, the file
  is written, the submitter is notified.
\<close>

definition upload_persist ::
  "Runtime \<Rightarrow> World \<Rightarrow> string \<Rightarrow> string \<Rightarrow> string \<Rightarrow> FileHeader \<Rightarrow> string \<Rightarrow> World \<times> Response" where
  "upload_persist rt w hexidcrackme username info header data =
     (let (st, err) = SolutionCreate (store w) (NewObjectID rt) (Now rt) info username hexidcrackme;
          w = w\<lparr>store := st\<rparr>;
          (solution, _) = SolutionsByUserAndCrackMe (store w) username hexidcrackme;
          safePath = upload_safePath rt username (Solution.HexId solution) (Filename header)
      in
      if \<not> strings_HasPrefix (filepath_Clean safePath) (GetSolutionPath (config rt) @ ''/'') then
        (AddFlash w ''Invalid file path'' FlashError, NoResponse)
      else
        (case os_WriteFile w safePath data of
           (w, Some err) \<Rightarrow>
             (AddFlash w ''An error occurred on the server. Please try again later.'' FlashError,
              Body err)
         | (w, None) \<Rightarrow>
             (let (crackme, err2) = CrackmeByHexId (store w) hexidcrackme;
                  w = (if err2 = None then
                         w\<lparr>store := fst (NotificationAdd (store w) (Now rt) username
                                  (''Your solution for '' @ quote @ Crackme.Name crackme
                                     @ quote @ '' is waiting approval!''))\<rparr>
                       else w)
              in (AddFlash w ''Solution uploaded! Should be available soon.'' FlashSuccess,
                  Redirect (''/user/'' @ username)))))"

definition UploadSolutionPOST :: "Runtime \<Rightarrow> World \<Rightarrow> Request \<Rightarrow> World \<times> Response" where
  "UploadSolutionPOST rt w r =
     (let hexidcrackme = params r ''hexidcrackme'';
          username = session_name r;
          w = ParseMultipartForm w r;
          info = sanitize_HTML rt (form r ''info'');
          (solution, _) = SolutionsByUserAndCrackMe (store w) username hexidcrackme
      in
      if solution \<noteq> Solution_zero then
        (AddFlash w (''You'' @ quote @ ''ve already submitted a solution to this crackme'') FlashError,
         UploadSolutionGET_page)
      else if \<not> recaptcha_verified r then
        (AddFlash w ''reCAPTCHA invalid!'' FlashError, UploadSolutionGET_page)
      else
        (case form_file r of
           None \<Rightarrow> (AddFlash w ''Field missing: file'' FlashError, UploadSolutionGET_page)
         | Some (header, stream) \<Rightarrow>
             if 5000000 <s Size header then
               (AddFlash w ''This file is too large !'' FlashError, UploadSolutionGET_page)
             else
               (let w = w\<lparr>payload_reads := payload_reads w + 1\<rparr> in
                case stream of
                  Inl err \<Rightarrow> (w, Body err)
                | Inr data \<Rightarrow> upload_persist rt w hexidcrackme username info header data)))"

definition LeaveCommentPOST :: "Runtime \<Rightarrow> World \<Rightarrow> Request \<Rightarrow> World \<times> Response" where
  "LeaveCommentPOST rt w r =
     (let crackmehexid = params r ''hexid'' in
      case Validate r [''comment''] of
        (False, missingField) \<Rightarrow>
          (AddFlash w (''Field missing: '' @ missingField) FlashError, CrackMeGET_page)
      | (True, _) \<Rightarrow>
          if \<not> recaptcha_verified r then
            (AddFlash w ''reCAPTCHA invalid!'' FlashError, CrackMeGET_page)
          else
            (let username = session_name r;
                 comment = sanitize_HTML rt (form r ''comment'');
                 (st, err) = CommentCreate (store w) (NewObjectID rt) (Now rt)
                               comment username crackmehexid;
                 w = w\<lparr>store := st\<rparr>
             in
             if err \<noteq> None then
               (AddFlash w ''Comment creation failed. Please try again later.'' FlashError,
                CrackMeGET_page)
             else
               (let (crackme, err) = CrackmeByHexId (store w) crackmehexid;
                    w = (if err = None \<and> Crackme.Author crackme \<noteq> username then
                           w\<lparr>store := fst (NotificationAdd (store w) (Now rt) (Crackme.Author crackme)
                                    (''New comment on your crackme '' @ quote @ Crackme.Name crackme
                                       @ quote @ '' by: '' @ username))\<rparr>
                         else w)
                in (AddFlash w ''Comment uploaded!'' FlashSuccess,
                    Redirect (''/crackme/'' @ crackmehexid)))))"

section \<open>Predicates and sample data used in the statements\<close>

text \<open>The comments \<open>CommentsByUser\<close> selects from: those of the author that are visible.
  An empty author name selects nothing, since a comment without author is stored
  without the field.\<close>

definition by_author_visible :: "string \<Rightarrow> Comment \<Rightarrow> bool" where
  "by_author_visible name c = (Comment.Author c = name \<and> name \<noteq> [] \<and> Comment.Visible c)"

text \<open>A store with 51 visible comments by alice, created at the instants 0 to 50.\<close>

definition comment_at :: "nat \<Rightarrow> Comment" where
  "comment_at i = \<lparr>Comment.ObjectId = NilObjectID, Content = ''nice one'', Author = ''alice'',
     CrackMeHexId = ''aaaaaaaaaaaaaaaaaaaaaaaa'', CrackmeName = ''keygen'',
     CreatedAt = int i, Visible = True, Deleted = False\<rparr>"

definition store_51 :: Store where
  "store_51 = \<lparr>connected = True, matcher = literal_matcher, coll_user = [], coll_crackme = [],
     coll_solution = [], coll_comment = map comment_at [0..<51], coll_notification = []\<rparr>"

text \<open>
  A sample run: a reachable store with one crackme by bob, an empty disk, and alice
  uploading the file \<open>solve.zip\<close> as a solution to it. The sanitizers of the sample
  runtime leave their argument as it is, the environment sets no variable, and the
  object id handed out is \<open>507f191e810c19729de860ea\<close>.
\<close>

definition sample_runtime :: Runtime where
  "sample_runtime = \<lparr>sanitize_HTML = (\<lambda>s. s), sanitize_Name = (\<lambda>s. s), getenv = (\<lambda>_. []),
     NewObjectID = ObjectID ''507f191e810c19729de860ea'', Now = 1000\<rparr>"

definition sample_crackme :: Crackme where
  "sample_crackme = \<lparr>Crackme.ObjectId = ObjectID ''aaaaaaaaaaaaaaaaaaaaaaaa'',
     HexId = ''aaaaaaaaaaaaaaaaaaaaaaaa'', Name = ''keygen'', Info = [], Lang = ''C'',
     Arch = ''x86'', Author = ''bob'', CreatedAt = 1, Visible = True, Deleted = False,
     NbSolutions = 0, NbComments = 0, Platform = ''Windows''\<rparr>"

definition sample_store :: Store where
  "sample_store = \<lparr>connected = True, matcher = literal_matcher, coll_user = [],
     coll_crackme = [sample_crackme], coll_solution = [], coll_comment = [],
     coll_notification = []\<rparr>"

definition sample_world :: World where
  "sample_world = \<lparr>store = sample_store, files = Map.empty, refuses = (\<lambda>_. False),
     flashes = [], payload_reads = 0\<rparr>"

definition sample_upload :: "64 word \<Rightarrow> Request" where
  "sample_upload declared =
     \<lparr>params = (\<lambda>k. if k = ''hexidcrackme'' then ''aaaaaaaaaaaaaaaaaaaaaaaa'' else []),
      session_name = ''alice'', form = (\<lambda>_. []),
      form_file = Some (\<lparr>Filename = ''solve.zip'', Size = declared\<rparr>, Inr ''PK''),
      recaptcha_verified = True\<rparr>"

text \<open>A comment on the sample crackme, posted by the named user.\<close>

definition sample_comment_by :: "string \<Rightarrow> Request" where
  "sample_comment_by username =
     \<lparr>params = (\<lambda>k. if k = ''hexid'' then ''aaaaaaaaaaaaaaaaaaaaaaaa'' else []),
      session_name = username,
      form = (\<lambda>k. if k = ''comment'' then ''nice one'' else []),
      form_file = None, recaptcha_verified = True\<rparr>"

text \<open>The notification \<open>LeaveCommentPOST\<close> sends to the author of a crackme about a
  comment by the named user.\<close>

definition comment_notice :: "Runtime \<Rightarrow> Crackme \<Rightarrow> string \<Rightarrow> Notification" where
  "comment_notice rt crackme username =
     \<lparr>Recipient = Crackme.Author crackme,
      Message = ''New comment on your crackme '' @ quote @ Crackme.Name crackme @ quote
                  @ '' by: '' @ username,
      CreatedAt = Now rt\<rparr>"

text \<open>The sample world once alice's solution to the sample crackme is stored and
  waits for approval.\<close>

definition sample_solution :: Solution where
  "sample_solution = \<lparr>Solution.ObjectId = ObjectID ''507f191e810c19729de860ea'',
     HexId = ''507f191e810c19729de860ea'', Info = [],
     CrackmeId = ObjectID ''aaaaaaaaaaaaaaaaaaaaaaaa'',
     CrackmeHexId = ''aaaaaaaaaaaaaaaaaaaaaaaa'', CrackmeName = ''keygen'', CreatedAt = 1000,
     Author = ''alice'', Visible = False, Deleted = False\<rparr>"

definition sample_world_solved :: World where
  "sample_world_solved = sample_world\<lparr>store := sample_store\<lparr>coll_solution := [sample_solution]\<rparr>\<rparr>"

text \<open>The answer of \<open>UploadSolutionPOST\<close> to a user who has a solution on the crackme
  already: the form again with the flash that says so, and nothing else changed.\<close>

definition already_submitted :: "World \<Rightarrow> World \<times> Response" where
  "already_submitted w =
     (AddFlash w (''You'' @ quote @ ''ve already submitted a solution to this crackme'') FlashError,
      UploadSolutionGET_page)"

text \<open>
  An ordinary path element is not empty, is neither \<open>.\<close> nor \<open>..\<close> and holds no
  separator. A stack of output elements of \<open>filepath.Clean\<close> (last element first) is
  clean when it consists of ordinary elements on top of \<open>..\<close> elements, the latter in
  a relative path only. A path lies below a root when it is the root, a separator and
  a rest made of ordinary elements only: no element of the rest climbs up.
\<close>

definition ordinary :: "string \<Rightarrow> bool" where
  "ordinary e = (e \<noteq> [] \<and> e \<noteq> ''.'' \<and> e \<noteq> ''..'' \<and> sep \<notin> set e)"

fun clean_stack :: "bool \<Rightarrow> string list \<Rightarrow> bool" where
  "clean_stack rooted [] = True"
| "clean_stack rooted (e # es) =
     (if e = ''..'' then \<not> rooted \<and> list_all (\<lambda>x. x = ''..'') es
      else ordinary e \<and> clean_stack rooted es)"

definition below :: "string \<Rightarrow> string \<Rightarrow> bool" where
  "below root path =
     (prefix (root @ [sep]) path
      \<and> list_all ordinary (split_sep (drop (length root + 1) path)))"

definition names_directory :: "string \<Rightarrow> bool" where
  "names_directory root = list_ex ordinary (split_sep root)"

text \<open>The sample upload by a given user of a file sent under a given name.\<close>

definition sample_upload_named :: "string \<Rightarrow> string \<Rightarrow> Request" where
  "sample_upload_named username filename =
     \<lparr>params = (\<lambda>k. if k = ''hexidcrackme'' then ''aaaaaaaaaaaaaaaaaaaaaaaa'' else []),
      session_name = username, form = (\<lambda>_. []),
      form_file = Some (\<lparr>Filename = filename, Size = 2\<rparr>, Inr ''PK''),
      recaptcha_verified = True\<rparr>"

text \<open>A store whose only comment and only solution, both on the sample crackme, are
  visible and flagged as deleted.\<close>

definition deleted_comment :: Comment where
  "deleted_comment = \<lparr>Comment.ObjectId = ObjectID ''bbbbbbbbbbbbbbbbbbbbbbbb'',
     Content = ''nice one'', Author = ''alice'', CrackMeHexId = ''aaaaaaaaaaaaaaaaaaaaaaaa'',
     CrackmeName = ''keygen'', CreatedAt = 2000, Visible = True, Deleted = True\<rparr>"

definition deleted_solution :: Solution where
  "deleted_solution = \<lparr>Solution.ObjectId = ObjectID ''507f191e810c19729de860ea'',
     HexId = ''507f191e810c19729de860ea'', Info = [],
     CrackmeId = ObjectID ''aaaaaaaaaaaaaaaaaaaaaaaa'',
     CrackmeHexId = ''aaaaaaaaaaaaaaaaaaaaaaaa'', CrackmeName = ''keygen'', CreatedAt = 1000,
     Author = ''alice'', Visible = True, Deleted = True\<rparr>"

definition flagged_store :: Store where
  "flagged_store = sample_store\<lparr>coll_solution := [deleted_solution],
     coll_comment := [deleted_comment]\<rparr>"

text \<open>The entities the two per-crackme counts select: those that carry the crackme's id
  and are visible. A hex id that is empty, or that is not the hex form of an object
  id, selects nothing.\<close>

definition counted_comment :: "string \<Rightarrow> Comment \<Rightarrow> bool" where
  "counted_comment crackmehexid c =
     (Comment.CrackMeHexId c = crackmehexid \<and> crackmehexid \<noteq> [] \<and> Comment.Visible c)"

definition counted_solution :: "string \<Rightarrow> Solution \<Rightarrow> bool" where
  "counted_solution crackmehexid s =
     (Solution.CrackmeId s = fst (ObjectIDFromHex crackmehexid)
      \<and> fst (ObjectIDFromHex crackmehexid) \<noteq> NilObjectID \<and> Solution.Visible s)"

text \<open>A store whose only user is registered under the name \<open>elvis\<close>.\<close>

definition elvis_user :: User where
  "elvis_user = \<lparr>User.ObjectId = ObjectID ''cccccccccccccccccccccccc'',
     HexId = ''cccccccccccccccccccccccc'', Name = ''elvis'', Email = ''elvis@example.com'',
     Password = ''$2a$10$hash'', Visible = True, Deleted = False,
     NbCrackmes = 0, NbSolutions = 0, NbComments = 0\<rparr>"

definition elvis_store :: Store where
  "elvis_store = sample_store\<lparr>coll_user := [elvis_user]\<rparr>"

text \<open>Two strings that are equal up to the case of their letters.\<close>

definition same_up_to_case :: "string \<Rightarrow> string \<Rightarrow> bool" where
  "same_up_to_case a b = (map ascii_lower a = map ascii_lower b)"

text \<open>The sample world with the backing store out of reach.\<close>

definition offline_store :: Store where
  "offline_store = sample_store\<lparr>connected := False\<rparr>"

definition offline_world :: World where
  "offline_world = sample_world\<lparr>store := offline_store\<rparr>"

text \<open>An upload by alice of a file of the given number of bytes.\<close>

definition sized_upload :: "nat \<Rightarrow> Request" where
  "sized_upload n =
     \<lparr>params = (\<lambda>k. if k = ''hexidcrackme'' then ''aaaaaaaaaaaaaaaaaaaaaaaa'' else []),
      session_name = ''alice'', form = (\<lambda>_. []),
      form_file = Some (\<lparr>Filename = ''solve.zip'', Size = of_nat n\<rparr>,
                        Inr (replicate n (CHR ''A''))),
      recaptcha_verified = True\<rparr>"

text \<open>
  A request passes the checks that come first in \<open>UploadSolutionPOST\<close> when the user
  has no solution on the crackme yet, the reCAPTCHA is verified, a file is there, its
  size is within the limit and its stream can be read. For such a request
  \<open>stored_after_create\<close> is the store once \<open>SolutionCreate\<close> has run, \<open>built_name\<close> the
  name the handler gives the file and \<open>built_path\<close> the path it builds and checks.
\<close>

definition passes_checks :: "World \<Rightarrow> Request \<Rightarrow> bool" where
  "passes_checks w r =
     (fst (SolutionsByUserAndCrackMe (store w) (session_name r) (params r ''hexidcrackme''))
        = Solution_zero
      \<and> recaptcha_verified r
      \<and> (case form_file r of
           None \<Rightarrow> False
         | Some (header, stream) \<Rightarrow>
             \<not> 5000000 <s Size header \<and> (case stream of Inl _ \<Rightarrow> False | Inr _ \<Rightarrow> True)))"

definition stored_after_create :: "Runtime \<Rightarrow> World \<Rightarrow> Request \<Rightarrow> Store" where
  "stored_after_create rt w r =
     fst (SolutionCreate (store w) (NewObjectID rt) (Now rt) (sanitize_HTML rt (form r ''info''))
            (session_name r) (params r ''hexidcrackme''))"

definition built_name :: "Runtime \<Rightarrow> World \<Rightarrow> Request \<Rightarrow> string" where
  "built_name rt w r =
     upload_name rt (session_name r)
       (Solution.HexId (fst (SolutionsByUserAndCrackMe (stored_after_create rt w r)
                               (session_name r) (params r ''hexidcrackme''))))
       (case form_file r of None \<Rightarrow> [] | Some (header, _) \<Rightarrow> Filename header)"

definition built_path :: "Runtime \<Rightarrow> World \<Rightarrow> Request \<Rightarrow> string" where
  "built_path rt w r = filepath_Join [GetSolutionPath (config rt), built_name rt w r]"

section \<open>Properties\<close>

subsection \<open>Listing a user's comments\<close>

lemma comment_author_visible_filter:
  "doc_matches rx [(''author'', BString name), (''visible'', BBool True)] (Comment_bson c)
     = (Comment.Author c = name \<and> name \<noteq> [] \<and> Comment.Visible c)"
  by (auto simp: doc_matches_def Comment_bson_def omitempty_def)

lemma comment_created_at_key:
  "sort_value (Comment_bson c) ''created_at'' = Comment.CreatedAt c"
  by (simp add: sort_value_def Comment_bson_def omitempty_def)

lemma CommentsByUser_connected:
  assumes "CheckConnection st"
  shows "CommentsByUser st name =
           (take 50 (sort_key (\<lambda>c. - Comment.CreatedAt c)
                       (filter (by_author_visible name) (coll_comment st))), None)"
  using assms
  by (simp add: CommentsByUser_def Find_def CheckConnection_def apply_limit_def apply_sort_def
        comment_author_visible_filter comment_created_at_key by_author_visible_def [abs_def])

lemma CommentsByUser_unavailable:
  assumes "\<not> CheckConnection st"
  shows "CommentsByUser st name = ([], Some ErrUnavailable)"
  using assms by (simp add: CommentsByUser_def)

lemma newest_first_take:
  fixes f :: "'a \<Rightarrow> int"
  shows "sorted_wrt (\<lambda>a b. f b \<le> f a) (take n (sort_key (\<lambda>c. - f c) xs))"
proof -
  have "sorted (map (\<lambda>c. - f c) (sort_key (\<lambda>c. - f c) xs))" by simp
  then have "sorted_wrt (\<lambda>a b. f b \<le> f a) (sort_key (\<lambda>c. - f c) xs)"
    by (simp add: sorted_map)
  then show ?thesis by (rule sorted_wrt_take)
qed

lemma omitted_not_newer:
  fixes f :: "'a \<Rightarrow> int"
  assumes "x \<in> set xs" and "x \<notin> set (take n (sort_key (\<lambda>c. - f c) xs))"
      and "r \<in> set (take n (sort_key (\<lambda>c. - f c) xs))"
  shows "f x \<le> f r"
proof -
  let ?s = "sort_key (\<lambda>c. - f c) xs"
  have "sorted_wrt (\<lambda>a b. f b \<le> f a) ?s"
    using newest_first_take [of f "length xs" xs] by simp
  then have "sorted_wrt (\<lambda>a b. f b \<le> f a) (take n ?s @ drop n ?s)"
    by simp
  then have srt: "\<forall>a \<in> set (take n ?s). \<forall>b \<in> set (drop n ?s). f b \<le> f a"
    unfolding sorted_wrt_append by blast
  have "x \<in> set ?s" using assms(1) by simp
  then have "x \<in> set (take n ?s) \<union> set (drop n ?s)"
    by (metis append_take_drop_id set_append)
  with assms(2) have "x \<in> set (drop n ?s)" by blast
  with srt assms(3) show ?thesis by blast
qed

text \<open>
  C10. \<open>CommentsByUser\<close> returns at most 50 comments; each is a stored comment of the
  named author that is visible; they are ordered by creation instant, newest first.
  On a reachable store no error is reported, the result has 50 entries whenever at
  least 50 comments qualify, and a qualifying comment that is left out is not newer
  than any comment returned: the ones beyond the 50 newest are dropped silently.
\<close>

theorem CommentsByUser_newest_50:
  "(case CommentsByUser st name of (result, err) \<Rightarrow>
      length result \<le> 50
    \<and> (\<forall>c \<in> set result. c \<in> set (coll_comment st) \<and> Comment.Visible c \<and> Comment.Author c = name)
    \<and> sorted_wrt (\<lambda>a b. Comment.CreatedAt b \<le> Comment.CreatedAt a) result
    \<and> (CheckConnection st \<longrightarrow>
         err = None
       \<and> length result = min 50 (length (filter (by_author_visible name) (coll_comment st)))
       \<and> (\<forall>c \<in> set (coll_comment st). by_author_visible name c \<and> c \<notin> set result \<longrightarrow>
            length result = 50 \<and> (\<forall>r \<in> set result. Comment.CreatedAt c \<le> Comment.CreatedAt r))))"
proof (cases "CheckConnection st")
  case False
  then show ?thesis by (simp add: CommentsByUser_unavailable)
next
  case True
  let ?m = "filter (by_author_visible name) (coll_comment st)"
  let ?s = "sort_key (\<lambda>c. - Comment.CreatedAt c) ?m"
  have res: "CommentsByUser st name = (take 50 ?s, None)"
    using True by (rule CommentsByUser_connected)
  have len: "length (take 50 ?s) = min 50 (length ?m)" by simp
  have mem: "\<forall>c \<in> set (take 50 ?s). c \<in> set (coll_comment st) \<and> Comment.Visible c \<and> Comment.Author c = name"
  proof
    fix c assume "c \<in> set (take 50 ?s)"
    then have "c \<in> set ?s" by (rule in_set_takeD)
    then show "c \<in> set (coll_comment st) \<and> Comment.Visible c \<and> Comment.Author c = name"
      by (simp add: by_author_visible_def)
  qed
  have srt: "sorted_wrt (\<lambda>a b. Comment.CreatedAt b \<le> Comment.CreatedAt a) (take 50 ?s)"
    by (rule newest_first_take)
  have omitted: "\<forall>c \<in> set (coll_comment st). by_author_visible name c \<and> c \<notin> set (take 50 ?s) \<longrightarrow>
            length (take 50 ?s) = 50 \<and> (\<forall>r \<in> set (take 50 ?s). Comment.CreatedAt c \<le> Comment.CreatedAt r)"
  proof (intro ballI impI conjI)
    fix c assume c: "c \<in> set (coll_comment st)" and h: "by_author_visible name c \<and> c \<notin> set (take 50 ?s)"
    then have cm: "c \<in> set ?m" by simp
    show "length (take 50 ?s) = 50"
    proof (rule ccontr)
      assume "length (take 50 ?s) \<noteq> 50"
      then have "length ?s < 50" by auto
      then have "take 50 ?s = ?s" by simp
      with cm h show False by simp
    qed
    fix r assume "r \<in> set (take 50 ?s)"
    with cm h show "Comment.CreatedAt c \<le> Comment.CreatedAt r"
      using omitted_not_newer [where x = c and xs = ?m and f = Comment.CreatedAt and n = 50 and r = r] by blast
  qed
  have le: "length (take 50 ?s) \<le> 50" by simp
  show ?thesis
    unfolding res prod.case using le len mem srt omitted by blast
qed

text \<open>With 51 visible comments of one author in the store, 50 are returned without an
  error and one that qualifies is left out.\<close>

theorem CommentsByUser_newest_50_witness:
  "CheckConnection store_51
   \<and> snd (CommentsByUser store_51 ''alice'') = None
   \<and> length (fst (CommentsByUser store_51 ''alice'')) = 50
   \<and> (\<exists>c \<in> set (coll_comment store_51).
         by_author_visible ''alice'' c \<and> c \<notin> set (fst (CommentsByUser store_51 ''alice''))
       \<and> (\<forall>r \<in> set (fst (CommentsByUser store_51 ''alice'')).
             Comment.CreatedAt c \<le> Comment.CreatedAt r))"
proof -
  obtain result err where res_eq: "CommentsByUser store_51 ''alice'' = (result, err)"
    by (cases "CommentsByUser store_51 ''alice''")
  have conn: "CheckConnection store_51"
    by (simp add: CheckConnection_def store_51_def)
  have coll: "coll_comment store_51 = map comment_at [0..<51]"
    by (simp add: store_51_def)
  have all_match: "filter (by_author_visible ''alice'') (coll_comment store_51) = coll_comment store_51"
    unfolding coll by (simp add: by_author_visible_def comment_at_def)
  have len51: "length (coll_comment store_51) = 51"
    unfolding coll by simp
  have "inj_on comment_at (set [0..<51])"
    by (rule inj_onI) (simp add: comment_at_def)
  then have dist: "distinct (coll_comment store_51)"
    unfolding coll by (simp add: distinct_map)
  note inst = CommentsByUser_newest_50 [of store_51 "''alice''", unfolded res_eq case_prod_conv all_match len51]
  from inst conn have err: "err = None" and l50: "length result = 50" by simp_all
  have "\<exists>c \<in> set (coll_comment store_51). c \<notin> set result"
  proof (rule ccontr)
    assume "\<not> ?thesis"
    then have "set (coll_comment store_51) \<subseteq> set result" by blast
    then have "card (set (coll_comment store_51)) \<le> card (set result)"
      by (simp add: card_mono)
    also have "\<dots> \<le> length result" by (rule card_length)
    finally show False using l50 len51 dist by (simp add: distinct_card)
  qed
  then obtain c where c: "c \<in> set (coll_comment store_51)" "c \<notin> set result" by blast
  have bav: "by_author_visible ''alice'' c"
    using c(1) unfolding coll by (auto simp: by_author_visible_def comment_at_def)
  from inst conn c bav have "\<forall>r \<in> set result. Comment.CreatedAt c \<le> Comment.CreatedAt r"
    by blast
  with c bav conn err l50 show ?thesis unfolding res_eq by auto
qed

subsection \<open>The size guard of the upload\<close>

lemma AddFlash_fields [simp]:
  "store (AddFlash w m k) = store w"
  "files (AddFlash w m k) = files w"
  "payload_reads (AddFlash w m k) = payload_reads w"
  "refuses (AddFlash w m k) = refuses w"
  "flashes (AddFlash w m k) = flashes w @ [Flash m k]"
  by (simp_all add: AddFlash_def)

lemma ParseMultipartForm_fields [simp]:
  "store (ParseMultipartForm w r) = store w"
  "files (ParseMultipartForm w r) = files w"
  "refuses (ParseMultipartForm w r) = refuses w"
  "flashes (ParseMultipartForm w r) = flashes w"
  by (simp_all add: ParseMultipartForm_def split: option.splits)

lemma ParseMultipartForm_reads:
  "form_file r = Some hs \<Longrightarrow> payload_reads (ParseMultipartForm w r) = payload_reads w + 1"
  by (simp add: ParseMultipartForm_def)

lemma os_WriteFile_fields:
  "os_WriteFile w p d = (w', e) \<Longrightarrow>
     store w' = store w \<and> payload_reads w' = payload_reads w \<and> flashes w' = flashes w
     \<and> refuses w' = refuses w
     \<and> (e = None \<longrightarrow> files w' = (files w)(p \<mapsto> d)) \<and> (e \<noteq> None \<longrightarrow> files w' = files w)"
  by (auto simp: os_WriteFile_def split: if_splits)

lemma upload_persist_reads:
  "payload_reads (fst (upload_persist rt w h u i hdr d)) = payload_reads w"
  by (auto simp: upload_persist_def Let_def split: prod.splits option.splits dest: os_WriteFile_fields)

lemma upload_too_large:
  assumes "form_file r = Some (header, stream)" and "5000000 <s Size header"
  shows "\<exists>msg. UploadSolutionPOST rt w r
           = (AddFlash (ParseMultipartForm w r) msg FlashError, UploadSolutionGET_page)"
  using assms by (auto simp: UploadSolutionPOST_def Let_def split: prod.splits)

lemma upload_too_large_flash:
  assumes "form_file r = Some (header, stream)" and "5000000 <s Size header"
      and "fst (SolutionsByUserAndCrackMe (store w) (session_name r) (params r ''hexidcrackme'')) = Solution_zero"
      and "recaptcha_verified r"
  shows "UploadSolutionPOST rt w r
           = (AddFlash (ParseMultipartForm w r) ''This file is too large !'' FlashError,
              UploadSolutionGET_page)"
  using assms by (auto simp: UploadSolutionPOST_def Let_def split: prod.splits)

lemma upload_within_limit_reads:
  assumes "form_file r = Some (header, stream)" and "\<not> 5000000 <s Size header"
      and "fst (SolutionsByUserAndCrackMe (store w) (session_name r) (params r ''hexidcrackme'')) = Solution_zero"
      and "recaptcha_verified r"
  shows "payload_reads (fst (UploadSolutionPOST rt w r)) = payload_reads w + 2"
  using assms
  by (auto simp: UploadSolutionPOST_def Let_def upload_persist_reads ParseMultipartForm_reads
           split: prod.splits sum.splits)

text \<open>
  What the size test does achieve: an upload whose measured size exceeds 5,000,000 is
  turned down with the store and the disk as before and without the second read,
  that of \<open>io.ReadAll\<close>; the one read of the payload that has happened is the
  parser's. An upload within the limit that passes the earlier checks is read a
  second time.
\<close>

lemma size_test_precedes_ReadAll:
  assumes "form_file r = Some (header, stream)"
  shows "(5000000 <s Size header \<longrightarrow>
            payload_reads (fst (UploadSolutionPOST rt w r)) = payload_reads w + 1
          \<and> store (fst (UploadSolutionPOST rt w r)) = store w
          \<and> files (fst (UploadSolutionPOST rt w r)) = files w
          \<and> snd (UploadSolutionPOST rt w r) = UploadSolutionGET_page)
       \<and> (fst (SolutionsByUserAndCrackMe (store w) (session_name r) (params r ''hexidcrackme''))
            = Solution_zero \<and> recaptcha_verified r \<and> \<not> 5000000 <s Size header \<longrightarrow>
            payload_reads (fst (UploadSolutionPOST rt w r)) = payload_reads w + 2)"
proof -
  have "payload_reads (fst (UploadSolutionPOST rt w r)) = payload_reads w + 1
          \<and> store (fst (UploadSolutionPOST rt w r)) = store w
          \<and> files (fst (UploadSolutionPOST rt w r)) = files w
          \<and> snd (UploadSolutionPOST rt w r) = UploadSolutionGET_page"
    if "5000000 <s Size header"
    using upload_too_large [OF assms that, of rt w] ParseMultipartForm_reads [OF assms, of w]
    by auto
  then show ?thesis
    using upload_within_limit_reads [OF assms, of w rt] by blast
qed

lemma sized_upload_fields:
  "params (sized_upload n) ''hexidcrackme'' = ''aaaaaaaaaaaaaaaaaaaaaaaa''"
  "session_name (sized_upload n) = ''alice''"
  "recaptcha_verified (sized_upload n)"
  "\<exists>stream. form_file (sized_upload n)
      = Some (\<lparr>Filename = ''solve.zip'', Size = of_nat n\<rparr>, stream)"
  by (simp_all add: sized_upload_def)

text \<open>
  C8 on the code. Alice uploads a file of 5,000,001 bytes. The request is turned
  down as too large, with the store and the disk as before, but its payload has
  been read into memory once by then: \<open>r.FormValue\<close> and \<open>r.FormFile\<close> have parsed the
  form before the size is tested. A file of exactly 5,000,000 bytes passes the test
  and is read a second time by \<open>io.ReadAll\<close>.
\<close>

theorem upload_parsed_before_size_test:
  "snd (UploadSolutionPOST sample_runtime sample_world (sized_upload 5000001))
     = UploadSolutionGET_page
   \<and> flashes (fst (UploadSolutionPOST sample_runtime sample_world (sized_upload 5000001)))
     = [Flash ''This file is too large !'' FlashError]
   \<and> store (fst (UploadSolutionPOST sample_runtime sample_world (sized_upload 5000001)))
     = sample_store
   \<and> files (fst (UploadSolutionPOST sample_runtime sample_world (sized_upload 5000001)))
     = Map.empty
   \<and> payload_reads sample_world = 0
   \<and> payload_reads (fst (UploadSolutionPOST sample_runtime sample_world (sized_upload 5000001)))
     = 1
   \<and> payload_reads (fst (UploadSolutionPOST sample_runtime sample_world (sized_upload 5000000)))
     = 2"
proof -
  have w: "store sample_world = sample_store" "files sample_world = Map.empty"
    "flashes sample_world = []" "payload_reads sample_world = 0"
    by (simp_all add: sample_world_def)
  have fresh: "fst (SolutionsByUserAndCrackMe (store sample_world) (session_name (sized_upload n))
                 (params (sized_upload n) ''hexidcrackme'')) = Solution_zero" for n
    by (simp add: SolutionsByUserAndCrackMe_def sample_world_def sample_store_def
          sized_upload_fields CheckConnection_def CrackmeByHexId_def FindOne_def Decode_def)
  obtain big where big: "form_file (sized_upload 5000001)
      = Some (\<lparr>Filename = ''solve.zip'', Size = of_nat 5000001\<rparr>, big)"
    using sized_upload_fields(4) by blast
  obtain lim where lim: "form_file (sized_upload 5000000)
      = Some (\<lparr>Filename = ''solve.zip'', Size = of_nat 5000000\<rparr>, lim)"
    using sized_upload_fields(4) by blast
  have over: "5000000 <s Size \<lparr>Filename = ''solve.zip'', Size = (of_nat 5000001 :: 64 word)\<rparr>"
    by simp
  have within: "\<not> 5000000 <s Size \<lparr>Filename = ''solve.zip'', Size = (of_nat 5000000 :: 64 word)\<rparr>"
    by simp
  have run: "UploadSolutionPOST sample_runtime sample_world (sized_upload 5000001)
      = (AddFlash (ParseMultipartForm sample_world (sized_upload 5000001))
           ''This file is too large !'' FlashError, UploadSolutionGET_page)"
    using big over fresh sized_upload_fields(3) by (rule upload_too_large_flash)
  have two: "payload_reads (fst (UploadSolutionPOST sample_runtime sample_world
      (sized_upload 5000000))) = payload_reads sample_world + 2"
    using lim within fresh sized_upload_fields(3) by (rule upload_within_limit_reads)
  show ?thesis
    by (simp add: run two w ParseMultipartForm_reads [OF big])
qed

subsection \<open>Notification of a comment\<close>

lemma CommentCreate_ok:
  assumes "CommentCreate st objId now content username hexid = (st', None)"
  shows "connected st \<and> snd (CrackmeByHexId st hexid) = None
       \<and> st' = st\<lparr>coll_comment := coll_comment st @
            [\<lparr>Comment.ObjectId = objId, Content = content, Author = username,
              CrackMeHexId = hexid, CrackmeName = Crackme.Name (fst (CrackmeByHexId st hexid)),
              CreatedAt = now, Visible = True, Deleted = False\<rparr>]\<rparr>"
  using assms
  by (auto simp: CommentCreate_def CheckConnection_def InsertOne_def standardizeError_def Let_def
           split: prod.splits if_splits)

lemma CrackmeByHexId_coll_comment [simp]:
  "CrackmeByHexId (coll_comment_update f st) hexid = CrackmeByHexId st hexid"
  by (simp add: CrackmeByHexId_def CheckConnection_def)

lemma NotificationAdd_connected:
  "connected st \<Longrightarrow>
     NotificationAdd st now recipient message =
       (st\<lparr>coll_notification := coll_notification st @
            [\<lparr>Recipient = recipient, Message = message, CreatedAt = now\<rparr>]\<rparr>, None)"
  by (simp add: NotificationAdd_def CheckConnection_def InsertOne_def standardizeError_def)

text \<open>
  C9. When \<open>LeaveCommentPOST\<close> has created the comment (it answers with the redirect to
  the crackme), the notifications in the store are those from before, followed by
  one notification to the crackme's author exactly when the commenting user is not
  that author; when the author comments, none is added.
\<close>

theorem comment_notifies_author_unless_self:
  assumes "LeaveCommentPOST rt w r = (w', Redirect url)"
  shows "(case CrackmeByHexId (store w) (params r ''hexid'') of (crackme, err) \<Rightarrow>
            err = None
          \<and> length (coll_comment (store w')) = length (coll_comment (store w)) + 1
          \<and> coll_notification (store w') =
               coll_notification (store w) @
                 (if Crackme.Author crackme \<noteq> session_name r
                  then [comment_notice rt crackme (session_name r)] else []))"
proof -
  let ?h = "params r ''hexid''"
  let ?u = "session_name r"
  obtain st1 err where cc: "CommentCreate (store w) (NewObjectID rt) (Now rt)
      (sanitize_HTML rt (form r ''comment'')) ?u ?h = (st1, err)"
    by (cases "CommentCreate (store w) (NewObjectID rt) (Now rt)
      (sanitize_HTML rt (form r ''comment'')) ?u ?h")
  have err: "err = None"
    using assms cc
    by (auto simp: LeaveCommentPOST_def Let_def split: prod.splits if_splits bool.splits)
  note ok = CommentCreate_ok [OF cc [unfolded err]]
  obtain crackme e where cr: "CrackmeByHexId (store w) ?h = (crackme, e)"
    by (cases "CrackmeByHexId (store w) ?h")
  from ok cr have e: "e = None" by simp
  obtain cs where st1: "st1 = (store w)\<lparr>coll_comment := coll_comment (store w) @ [cs]\<rparr>"
    using ok by blast
  have cr1: "CrackmeByHexId st1 ?h = (crackme, None)"
    using cr e by (simp add: st1)
  have conn1: "connected st1"
    using ok by (simp add: st1)
  have v: "fst (Validate r [''comment''])" and rc: "recaptcha_verified r"
    using assms
    by (auto simp: LeaveCommentPOST_def Let_def split: prod.splits if_splits bool.splits)
  define w2 where "w2 = (if Crackme.Author crackme \<noteq> ?u
       then w\<lparr>store := st1\<lparr>coll_notification := coll_notification st1 @
               [comment_notice rt crackme ?u]\<rparr>\<rparr>
       else w\<lparr>store := st1\<rparr>)"
  have "LeaveCommentPOST rt w r =
          (AddFlash w2 ''Comment uploaded!'' FlashSuccess, Redirect (''/crackme/'' @ ?h))"
    using v rc
    by (auto simp: LeaveCommentPOST_def Let_def cc err cr1 w2_def comment_notice_def
          NotificationAdd_connected [OF conn1] split: prod.splits bool.splits)
  with assms have w': "w' = AddFlash w2 ''Comment uploaded!'' FlashSuccess" by simp
  show ?thesis
    unfolding cr case_prod_conv
    by (simp add: e w' AddFlash_def w2_def st1)
qed

text \<open>On the sample crackme of bob, a comment by alice notifies bob and a comment by
  bob notifies nobody.\<close>

theorem comment_notifies_author_unless_self_witness:
  "snd (LeaveCommentPOST sample_runtime sample_world (sample_comment_by ''alice''))
     = Redirect ''/crackme/aaaaaaaaaaaaaaaaaaaaaaaa''
   \<and> coll_notification (store (fst (LeaveCommentPOST sample_runtime sample_world
         (sample_comment_by ''alice''))))
     = [comment_notice sample_runtime sample_crackme ''alice'']
   \<and> Recipient (comment_notice sample_runtime sample_crackme ''alice'') = ''bob''
   \<and> snd (LeaveCommentPOST sample_runtime sample_world (sample_comment_by ''bob''))
     = Redirect ''/crackme/aaaaaaaaaaaaaaaaaaaaaaaa''
   \<and> coll_notification (store (fst (LeaveCommentPOST sample_runtime sample_world
         (sample_comment_by ''bob''))))
     = []"
proof -
  let ?run = "\<lambda>u. LeaveCommentPOST sample_runtime sample_world (sample_comment_by u)"
  have sw: "store sample_world = sample_store"
    by (simp add: sample_world_def)
  have conn: "connected sample_store"
    by (simp add: sample_store_def)
  have look: "CrackmeByHexId sample_store ''aaaaaaaaaaaaaaaaaaaaaaaa'' = (sample_crackme, None)"
    by (simp add: CrackmeByHexId_def CheckConnection_def sample_store_def sample_crackme_def)
  have resp: "snd (?run u) = Redirect ''/crackme/aaaaaaaaaaaaaaaaaaaaaaaa''" for u
    by (simp add: LeaveCommentPOST_def Validate_def CommentCreate_def sw look conn Let_def
          CheckConnection_def InsertOne_def standardizeError_def sample_comment_by_def)
  have run: "?run u = (fst (?run u), Redirect ''/crackme/aaaaaaaaaaaaaaaaaaaaaaaa'')" for u
    using resp [of u] by (cases "?run u") simp
  have author: "Crackme.Author sample_crackme = ''bob''"
    by (simp add: sample_crackme_def)
  have names: "session_name (sample_comment_by u) = u" for u
    by (simp add: sample_comment_by_def)
  have none: "coll_notification sample_store = []"
    by (simp add: sample_store_def)
  have par: "params (sample_comment_by u) ''hexid'' = ''aaaaaaaaaaaaaaaaaaaaaaaa''" for u
    by (simp add: sample_comment_by_def)
  show ?thesis
    using comment_notifies_author_unless_self [OF run [of "''alice''"]]
      comment_notifies_author_unless_self [OF run [of "''bob''"]]
    by (simp add: sw look resp author names none par comment_notice_def)
qed

subsection \<open>A second solution by the same user\<close>

lemma solution_crackme_author_filter:
  "doc_matches rx [(''crackmeid'', BObjectID cid), (''author'', BString u)] (Solution_bson s)
     = (Solution.CrackmeId s = cid \<and> cid \<noteq> NilObjectID \<and> Solution.Author s = u \<and> u \<noteq> [])"
  by (auto simp: doc_matches_def Solution_bson_def omitempty_def)

lemma existing_solution_found:
  assumes "connected st"
      and "CrackmeByHexId st hexid = (crackme, None)"
      and "s \<in> set (coll_solution st)"
      and "Solution.Author s = username" and "Solution.CrackmeId s = Crackme.ObjectId crackme"
      and "username \<noteq> []" and "Crackme.ObjectId crackme \<noteq> NilObjectID"
  shows "fst (SolutionsByUserAndCrackMe st username hexid) \<noteq> Solution_zero"
proof -
  let ?P = "\<lambda>d. doc_matches (matcher st)
      [(''crackmeid'', BObjectID (Crackme.ObjectId crackme)), (''author'', BString username)]
      (Solution_bson d)"
  have "?P s" using assms by (simp add: solution_crackme_author_filter)
  with assms(3) have "find ?P (coll_solution st) \<noteq> None"
    by (auto simp: find_None_iff)
  then obtain s' where f: "find ?P (coll_solution st) = Some s'" by blast
  then have "?P s'" by (auto simp: find_Some_iff)
  then have "Solution.Author s' = username" by (simp add: solution_crackme_author_filter)
  with assms(6) have "s' \<noteq> Solution_zero" by (auto simp: Solution_zero_def)
  moreover have "fst (SolutionsByUserAndCrackMe st username hexid) = s'"
    using assms(1,2) f
    by (simp add: SolutionsByUserAndCrackMe_def CheckConnection_def FindOne_def Decode_def)
  ultimately show ?thesis by simp
qed

text \<open>
  C6. When the store is reachable and holds a solution by the user on the crackme the
  request names (pending or approved, whatever its flags), \<open>UploadSolutionPOST\<close> turns
  the request down at its first check, the form parsed: the answer is the form with
  the flash "You've already submitted a solution to this crackme", and the store,
  with its solutions, and the disk are as before. The user name is not empty and the crackme carries an
  object id, as every logged-in user and every stored crackme does. Since the store
  is unchanged, the same holds for every later attempt.
\<close>

theorem duplicate_solution_rejected:
  assumes "connected (store w)"
      and "CrackmeByHexId (store w) (params r ''hexidcrackme'') = (crackme, None)"
      and "s \<in> set (coll_solution (store w))"
      and "Solution.Author s = session_name r"
      and "Solution.CrackmeId s = Crackme.ObjectId crackme"
      and "session_name r \<noteq> []" and "Crackme.ObjectId crackme \<noteq> NilObjectID"
  shows "UploadSolutionPOST rt w r = already_submitted (ParseMultipartForm w r)
       \<and> store (fst (UploadSolutionPOST rt w r)) = store w
       \<and> files (fst (UploadSolutionPOST rt w r)) = files w"
proof -
  have "fst (SolutionsByUserAndCrackMe (store w) (session_name r) (params r ''hexidcrackme''))
          \<noteq> Solution_zero"
    using assms by (rule existing_solution_found)
  then have "UploadSolutionPOST rt w r = already_submitted (ParseMultipartForm w r)"
    by (auto simp: UploadSolutionPOST_def already_submitted_def Let_def split: prod.splits)
  then show ?thesis by (simp add: already_submitted_def AddFlash_def)
qed

text \<open>Alice, whose solution to the sample crackme waits for approval, uploads again.\<close>

theorem duplicate_solution_rejected_witness:
  "connected (store sample_world_solved)
   \<and> CrackmeByHexId (store sample_world_solved) (params (sample_upload 2) ''hexidcrackme'')
       = (sample_crackme, None)
   \<and> sample_solution \<in> set (coll_solution (store sample_world_solved))
   \<and> Solution.Author sample_solution = session_name (sample_upload 2)
   \<and> Solution.CrackmeId sample_solution = Crackme.ObjectId sample_crackme
   \<and> \<not> Solution.Deleted sample_solution
   \<and> UploadSolutionPOST sample_runtime sample_world_solved (sample_upload 2)
       = already_submitted (ParseMultipartForm sample_world_solved (sample_upload 2))
   \<and> coll_solution (store (fst (UploadSolutionPOST sample_runtime sample_world_solved
         (sample_upload 2)))) = [sample_solution]"
proof -
  have h1: "connected (store sample_world_solved)"
    by (simp add: sample_world_solved_def sample_store_def)
  have h2: "CrackmeByHexId (store sample_world_solved) (params (sample_upload 2) ''hexidcrackme'')
       = (sample_crackme, None)"
    by (simp add: CrackmeByHexId_def CheckConnection_def sample_world_solved_def sample_store_def
          sample_upload_def sample_crackme_def)
  have h3: "sample_solution \<in> set (coll_solution (store sample_world_solved))"
    by (simp add: sample_world_solved_def)
  have h4: "Solution.Author sample_solution = session_name (sample_upload 2)"
    by (simp add: sample_solution_def sample_upload_def)
  have h5: "Solution.CrackmeId sample_solution = Crackme.ObjectId sample_crackme"
    by (simp add: sample_solution_def sample_crackme_def)
  have h6: "session_name (sample_upload 2) \<noteq> []"
    by (simp add: sample_upload_def)
  have h7: "Crackme.ObjectId sample_crackme \<noteq> NilObjectID"
    by (simp add: sample_crackme_def NilObjectID_def)
  have h8: "\<not> Solution.Deleted sample_solution"
    by (simp add: sample_solution_def)
  have h9: "coll_solution (store sample_world_solved) = [sample_solution]"
    by (simp add: sample_world_solved_def)
  show ?thesis
    using duplicate_solution_rejected [OF h1 h2 h3 h4 h5 h6 h7, of sample_runtime]
      h1 h2 h3 h4 h5 h8 h9
    by (simp add: already_submitted_def AddFlash_def)
qed

subsection \<open>Cleaned paths\<close>

declare clean_step.simps [simp del]

lemma split_sep_nonempty [simp]: "split_sep s \<noteq> []"
  by (induction s) (auto split: list.splits)

lemma split_sep_no_sep: "e \<in> set (split_sep s) \<Longrightarrow> sep \<notin> set e"
  by (induction s arbitrary: e) (auto split: list.splits if_splits)

lemma split_sep_append: "split_sep (a @ sep # b) = split_sep a @ split_sep b"
  by (induction a) (auto split: list.splits)

lemma split_sep_plain: "sep \<notin> set e \<Longrightarrow> split_sep e = [e]"
  by (induction e) (auto split: list.splits)

lemma split_join_sep:
  "es \<noteq> [] \<Longrightarrow> \<forall>e \<in> set es. sep \<notin> set e \<Longrightarrow> split_sep (join_sep es) = es"
proof (induction es rule: join_sep.induct)
  case 1
  then show ?case by simp
next
  case (2 e)
  then show ?case by (simp add: split_sep_plain)
next
  case (3 e v va)
  then show ?case by (simp add: split_sep_append split_sep_plain)
qed

lemma clean_step_stack:
  assumes "clean_stack rooted out" and "sep \<notin> set e"
  shows "clean_stack rooted (clean_step rooted out e)"
  using assms by (cases out) (auto simp: ordinary_def clean_step.simps)

lemma foldl_clean_stack:
  assumes "clean_stack rooted out" and "\<forall>e \<in> set es. sep \<notin> set e"
  shows "clean_stack rooted (foldl (clean_step rooted) out es)"
  using assms
proof (induction es arbitrary: out)
  case Nil
  then show ?case by simp
next
  case (Cons e es)
  have "clean_stack rooted (clean_step rooted out e)"
    using Cons.prems by (intro clean_step_stack) auto
  then show ?case using Cons by simp
qed

lemma clean_elems_stack: "clean_stack rooted (rev (clean_elems rooted (split_sep p)))"
  unfolding clean_elems_def rev_rev_ident
  by (rule foldl_clean_stack) (auto dest: split_sep_no_sep)

lemma clean_stack_rebuild:
  "clean_stack rooted out \<Longrightarrow> foldl (clean_step rooted) [] (rev out) = out"
proof (induction out)
  case Nil
  then show ?case by simp
next
  case (Cons e es)
  have tail: "clean_stack rooted es"
  proof (cases "e = ''..''")
    case True
    with Cons.prems have "list_all (\<lambda>x. x = ''..'') es" and "\<not> rooted" by auto
    then show ?thesis by (induction es) auto
  next
    case False
    with Cons.prems show ?thesis by auto
  qed
  then have "foldl (clean_step rooted) [] (rev es) = es" by (rule Cons.IH)
  then have step: "foldl (clean_step rooted) [] (rev (e # es)) = clean_step rooted es e"
    by simp
  have "clean_step rooted es e = e # es"
  proof (cases "e = ''..''")
    case True
    with Cons.prems have "list_all (\<lambda>x. x = ''..'') es" and "\<not> rooted" by auto
    with True show ?thesis by (cases es) (auto simp: clean_step.simps)
  next
    case False
    with Cons.prems have "ordinary e" by auto
    then show ?thesis by (auto simp: ordinary_def clean_step.simps)
  qed
  with step show ?case by simp
qed

lemma dotdot_no_sep: "sep \<notin> set ''..''"
  by (simp add: sep_def)

lemma clean_stack_elems:
  "clean_stack rooted out \<Longrightarrow> e \<in> set out \<Longrightarrow> e \<noteq> [] \<and> sep \<notin> set e"
proof (induction out)
  case Nil
  then show ?case by simp
next
  case (Cons x xs)
  show ?case
  proof (cases "x = ''..''")
    case True
    with Cons.prems have "list_all (\<lambda>y. y = ''..'') xs" by simp
    with Cons.prems(2) True have "e = ''..''" by (auto simp: list_all_iff)
    then show ?thesis using dotdot_no_sep by simp
  next
    case False
    with Cons show ?thesis by (auto simp: ordinary_def)
  qed
qed

lemma clean_stack_forward:
  "clean_stack rooted out \<Longrightarrow>
     \<exists>k ns. rev out = replicate k ''..'' @ ns \<and> (\<forall>e \<in> set ns. ordinary e)"
proof (induction out)
  case Nil
  then show ?case by simp
next
  case (Cons x xs)
  show ?case
  proof (cases "x = ''..''")
    case True
    with Cons.prems have "list_all (\<lambda>y. y = ''..'') xs" by simp
    then have "x # xs = replicate (Suc (length xs)) ''..''"
      using True by (induction xs) auto
    then have "rev (x # xs) = replicate (Suc (length xs)) ''..'' @ []"
      by (metis append_Nil2 rev_replicate)
    then show ?thesis by (metis empty_iff list.set(1))
  next
    case False
    with Cons.prems have o: "ordinary x" and "clean_stack rooted xs" by auto
    then obtain k ns where "rev xs = replicate k ''..'' @ ns" "\<forall>e \<in> set ns. ordinary e"
      using Cons.IH by blast
    with o have "rev (x # xs) = replicate k ''..'' @ (ns @ [x]) \<and> (\<forall>e \<in> set (ns @ [x]). ordinary e)"
      by simp
    then show ?thesis by blast
  qed
qed

lemma no_sep_ends: "e \<noteq> [] \<Longrightarrow> sep \<notin> set e \<Longrightarrow> hd e \<noteq> sep \<and> last e \<noteq> sep"
  by (metis hd_in_set last_in_set)

lemma join_sep_ends:
  assumes "es \<noteq> []" and "\<forall>e \<in> set es. e \<noteq> [] \<and> sep \<notin> set e"
  shows "join_sep es \<noteq> [] \<and> hd (join_sep es) \<noteq> sep \<and> last (join_sep es) \<noteq> sep"
  using assms
proof (induction es rule: join_sep.induct)
  case 1
  then show ?case by simp
next
  case (2 e)
  then have e: "e \<noteq> []" "sep \<notin> set e" by simp_all
  with no_sep_ends [OF e] show ?case by simp
next
  case (3 e v va)
  then have e: "e \<noteq> []" "sep \<notin> set e" by simp_all
  note h = no_sep_ends [OF e]
  have "join_sep (v # va) \<noteq> [] \<and> last (join_sep (v # va)) \<noteq> sep"
    using 3 by simp
  with e h show ?case by simp
qed

lemma filepath_Clean_dot [simp]: "filepath_Clean ''.'' = ''.''"
  by (simp add: filepath_Clean_def clean_elems_def sep_def clean_step.simps)

lemma clean_elems_rebuild:
  assumes "clean_stack rooted (rev es)"
  shows "clean_elems rooted es = es" and "clean_elems rooted ([] # es) = es"
proof -
  have "foldl (clean_step rooted) [] (rev (rev es)) = rev es"
    using assms by (rule clean_stack_rebuild)
  then show "clean_elems rooted es = es" by (simp add: clean_elems_def)
  then show "clean_elems rooted ([] # es) = es"
    by (simp add: clean_elems_def clean_step.simps)
qed

text \<open>The shape of a cleaned path.\<close>

lemma filepath_Clean_shape:
  "\<exists>rooted es. clean_stack rooted (rev es)
     \<and> filepath_Clean p = (if rooted then sep # join_sep es
                           else if es = [] then ''.'' else join_sep es)"
proof (cases "p = []")
  case True
  have "clean_stack False (rev [])" by simp
  moreover have "filepath_Clean p = (if False then sep # join_sep [] else if [] = ([]::string list) then ''.'' else join_sep [])"
    using True by (simp add: filepath_Clean_def)
  ultimately show ?thesis by blast
next
  case False
  let ?r = "hd p = sep"
  let ?es = "clean_elems ?r (split_sep p)"
  have cs: "clean_stack ?r (rev ?es)" by (rule clean_elems_stack)
  have ne: "\<forall>e \<in> set ?es. e \<noteq> [] \<and> sep \<notin> set e"
    using clean_stack_elems [OF cs] by simp
  have "join_sep ?es = [] \<longleftrightarrow> ?es = []"
    using join_sep_ends [OF _ ne] by (cases "?es = []") auto
  then have "filepath_Clean p = (if ?r then sep # join_sep ?es
                           else if ?es = [] then ''.'' else join_sep ?es)"
    using False by (simp add: filepath_Clean_def)
  with cs show ?thesis by blast
qed

theorem filepath_Clean_idem: "filepath_Clean (filepath_Clean p) = filepath_Clean p"
proof -
  obtain rooted es where cs: "clean_stack rooted (rev es)"
    and q: "filepath_Clean p = (if rooted then sep # join_sep es
                           else if es = [] then ''.'' else join_sep es)"
    using filepath_Clean_shape by blast
  have ne: "\<forall>e \<in> set es. e \<noteq> [] \<and> sep \<notin> set e"
    using clean_stack_elems [OF cs] by simp
  show ?thesis
  proof (cases "es = []")
    case True
    have "filepath_Clean [sep] = [sep]"
      by (simp add: filepath_Clean_def clean_elems_def clean_step.simps)
    with True q show ?thesis by (cases rooted) simp_all
  next
    case False
    note ends = join_sep_ends [OF False ne]
    have sp: "split_sep (join_sep es) = es"
      using False ne by (simp add: split_join_sep)
    show ?thesis
    proof (cases rooted)
      case True
      then have "filepath_Clean (sep # join_sep es) = sep # join_sep es"
        using ends cs False
        by (simp add: filepath_Clean_def sp clean_elems_rebuild)
      with True q show ?thesis by simp
    next
      case nr: False
      then have "filepath_Clean (join_sep es) = join_sep es"
        using ends cs False
        by (simp add: filepath_Clean_def sp clean_elems_rebuild)
      with nr q False show ?thesis by simp
    qed
  qed
qed

lemma filepath_Clean_no_trailing_sep:
  assumes "root \<noteq> []"
  shows "filepath_Clean p \<noteq> root @ [sep]"
proof
  assume eq: "filepath_Clean p = root @ [sep]"
  obtain rooted es where cs: "clean_stack rooted (rev es)"
    and q: "filepath_Clean p = (if rooted then sep # join_sep es
                           else if es = [] then ''.'' else join_sep es)"
    using filepath_Clean_shape by blast
  have ne: "\<forall>e \<in> set es. e \<noteq> [] \<and> sep \<notin> set e"
    using clean_stack_elems [OF cs] by simp
  have l: "last (filepath_Clean p) = sep" and len: "2 \<le> length (filepath_Clean p)"
    using eq assms by (simp_all add: Suc_le_eq)
  show False
  proof (cases "es = []")
    case True
    with q len show False by (cases rooted) simp_all
  next
    case False
    note ends = join_sep_ends [OF False ne]
    with q l False show False by (cases rooted) simp_all
  qed
qed

lemma tail_in_suffix:
  assumes "A @ B = C @ D" and "x \<in> set A" and "x \<notin> set C"
  shows "set B \<subseteq> set D"
proof -
  from assms(1) obtain us where "(A = C @ us \<and> us @ B = D) \<or> (A @ us = C \<and> B = us @ D)"
    by (auto simp: append_eq_append_conv2)
  then show ?thesis
  proof
    assume "A = C @ us \<and> us @ B = D"
    then show ?thesis by auto
  next
    assume "A @ us = C \<and> B = us @ D"
    with assms(2,3) show ?thesis by auto
  qed
qed

lemma clean_path_below:
  assumes pre: "prefix (root @ [sep]) (filepath_Clean p)" and nd: "names_directory root"
  shows "below root (filepath_Clean p)"
proof -
  let ?q = "filepath_Clean p"
  obtain rest where qr: "?q = root @ sep # rest"
    using pre by (auto simp: prefix_def)
  obtain x where x: "x \<in> set (split_sep root)" "ordinary x"
    using nd by (auto simp: names_directory_def list_ex_iff)
  obtain rooted es where cs: "clean_stack rooted (rev es)"
    and q: "?q = (if rooted then sep # join_sep es
                           else if es = [] then ''.'' else join_sep es)"
    using filepath_Clean_shape by blast
  have ne: "\<forall>e \<in> set es. e \<noteq> [] \<and> sep \<notin> set e"
    using clean_stack_elems [OF cs] by simp
  have rootne: "root \<noteq> []"
    using x by (cases root) (auto simp: ordinary_def)
  have len: "2 \<le> length ?q"
    using qr rootne by (cases root) simp_all
  have esne: "es \<noteq> []"
    using q len by (cases rooted) (auto split: if_splits)
  have sp: "split_sep (join_sep es) = es"
    using esne ne by (simp add: split_join_sep)
  obtain pre where spq: "split_sep ?q = pre @ es" and prel: "set pre \<subseteq> {[]}"
  proof (cases rooted)
    case True
    with q sp have "split_sep ?q = [[]] @ es" by simp
    then show ?thesis using that by auto
  next
    case False
    with q esne sp have "split_sep ?q = [] @ es" by simp
    then show ?thesis using that by auto
  qed
  obtain k ns where es: "es = replicate k ''..'' @ ns" and ns: "\<forall>e \<in> set ns. ordinary e"
    using clean_stack_forward [OF cs] by auto
  have "split_sep root @ split_sep rest = (pre @ replicate k ''..'') @ ns"
    using spq es qr by (simp add: split_sep_append)
  moreover note x(1)
  moreover have "x \<notin> set (pre @ replicate k ''..'')"
    using x(2) prel by (auto simp: ordinary_def)
  ultimately have "set (split_sep rest) \<subseteq> set ns"
    by (rule tail_in_suffix)
  with ns have "list_all ordinary (split_sep rest)"
    by (auto simp: list_all_iff)
  moreover have "drop (length root + 1) ?q = rest"
    by (simp add: qr)
  ultimately show ?thesis
    using pre by (simp add: below_def)
qed

subsection \<open>The path of an uploaded solution\<close>

lemma solution_root_nonempty: "GetSolutionPath (config rt) \<noteq> []"
  by (simp add: GetSolutionPath_def config_def Configure_def Let_def)

lemma upload_safePath_clean:
  "upload_safePath rt u h f =
     filepath_Clean (GetSolutionPath (config rt) @ sep # upload_name rt u h f)"
  using solution_root_nonempty [of rt]
  by (simp add: upload_safePath_def filepath_Join_def)

lemma built_path_safePath:
  "built_path rt w r =
     upload_safePath rt (session_name r)
       (Solution.HexId (fst (SolutionsByUserAndCrackMe (stored_after_create rt w r)
                               (session_name r) (params r ''hexidcrackme''))))
       (case form_file r of None \<Rightarrow> [] | Some (header, _) \<Rightarrow> Filename header)"
  by (simp add: built_path_def built_name_def upload_safePath_def)

lemma built_path_clean:
  "built_path rt w r = filepath_Clean (GetSolutionPath (config rt) @ sep # built_name rt w r)"
  using solution_root_nonempty [of rt]
  by (simp add: built_path_def filepath_Join_def)

text \<open>A name built by the handler holds the mark \<open>+++\<close>, so it is an ordinary element as
  soon as it holds no separator.\<close>

lemma upload_name_ordinary:
  assumes "sep \<notin> set (upload_name rt u h f)"
  shows "ordinary (upload_name rt u h f)"
proof -
  have plus: "CHR ''+'' \<in> set (upload_name rt u h f)"
    by (simp add: upload_name_def Let_def)
  have "upload_name rt u h f \<noteq> []" "upload_name rt u h f \<noteq> ''.''" "upload_name rt u h f \<noteq> ''..''"
    using plus by auto
  with assms show ?thesis by (simp add: ordinary_def)
qed

lemma join_split_sep: "join_sep (split_sep s) = s"
proof (induction s)
  case Nil
  then show ?case by simp
next
  case (Cons c cs)
  obtain e es where sp: "split_sep cs = e # es"
    by (cases "split_sep cs") simp_all
  show ?case
  proof (cases "c = sep")
    case True
    with Cons sp show ?thesis by simp
  next
    case False
    with Cons sp show ?thesis by (cases es) simp_all
  qed
qed

lemma foldl_clean_step_length:
  "length (foldl (clean_step rooted) out es) \<le> length out + length es"
proof (induction es arbitrary: out)
  case Nil
  then show ?case by simp
next
  case (Cons e es)
  have "length (clean_step rooted out e) \<le> length out + 1"
    by (cases out) (simp_all add: clean_step.simps)
  with Cons [of "clean_step rooted out e"] show ?case by simp
qed

text \<open>Joining a root with one ordinary element: when the cleaned result begins with the
  root and a separator, it is the root, a separator and that element.\<close>

lemma clean_single_element:
  assumes root: "root \<noteq> []" and name: "ordinary name"
      and pre: "prefix (root @ [sep]) (filepath_Clean (root @ sep # name))"
  shows "filepath_Clean (root @ sep # name) = root @ sep # name"
proof -
  let ?q = "root @ sep # name"
  let ?p = "filepath_Clean ?q"
  define rooted where "rooted = (hd root = sep)"
  define S where "S = foldl (clean_step rooted) [] (split_sep root)"
  define lead where "lead = (if rooted then [[]] else ([] :: string list))"
  have hdq: "(hd ?q = sep) = rooted"
    using root by (simp add: rooted_def)
  have nsep: "sep \<notin> set name" using name by (simp add: ordinary_def)
  have spq: "split_sep ?q = split_sep root @ [name]"
    using nsep by (simp add: split_sep_append split_sep_plain)
  have push: "clean_step rooted S name = name # S"
    using name by (simp add: ordinary_def clean_step.simps)
  have es: "clean_elems rooted (split_sep ?q) = rev S @ [name]"
    by (simp add: clean_elems_def spq push S_def [symmetric])
  have cs: "clean_stack rooted (rev (clean_elems rooted (split_sep ?q)))"
    by (rule clean_elems_stack)
  have ne: "\<forall>e \<in> set (rev S @ [name]). e \<noteq> [] \<and> sep \<notin> set e"
    using clean_stack_elems [OF cs] es by simp
  have nonempty: "rev S @ [name] \<noteq> []" by simp
  note ends = join_sep_ends [OF nonempty ne]
  have pform: "?p = (if rooted then [sep] else []) @ join_sep (rev S @ [name])"
    using ends root by (simp add: filepath_Clean_def Let_def rooted_def [symmetric] es)
  have sj: "split_sep (join_sep (rev S @ [name])) = rev S @ [name]"
    using ne by (simp add: split_join_sep)
  have spp: "split_sep ?p = lead @ rev S @ [name]"
    by (cases rooted) (simp_all add: pform sj lead_def)
  obtain rest where rest: "?p = root @ sep # rest"
    using pre by (auto simp: prefix_def)
  have sproot: "split_sep ?p = split_sep root @ split_sep rest"
    by (simp add: rest split_sep_append)
  have lenS: "length (lead @ rev S) \<le> length (split_sep root)"
  proof (cases rooted)
    case False
    then show ?thesis
      using foldl_clean_step_length [of rooted "[]" "split_sep root"]
      by (simp add: S_def lead_def)
  next
    case True
    then obtain r' where r': "root = sep # r'"
      using root by (cases root) (auto simp: rooted_def)
    have "S = foldl (clean_step rooted) [] (split_sep r')"
      by (simp add: S_def r' clean_step.simps)
    then have "length S \<le> length (split_sep r')"
      using foldl_clean_step_length [of rooted "[]" "split_sep r'"] by simp
    then show ?thesis using True by (simp add: r' lead_def)
  qed
  have "length (split_sep root @ split_sep rest) = length (lead @ rev S @ [name])"
    using spp sproot by simp
  then have "length (split_sep root) + length (split_sep rest) = length (lead @ rev S) + 1"
    by simp
  with lenS have "length (split_sep rest) \<le> 1" by simp
  then obtain x where x: "split_sep rest = [x]"
    by (cases "split_sep rest") (simp_all add: Suc_le_eq)
  have "last (split_sep ?p) = name" by (simp add: spp)
  moreover have "last (split_sep ?p) = x" by (simp add: sproot x)
  ultimately have "split_sep rest = [name]" using x by simp
  then have "rest = name"
    using join_split_sep [of rest] by simp
  with rest show ?thesis by simp
qed

text \<open>The handler on a request that does not pass the first checks, and on one that
  does.\<close>

lemma UploadSolutionPOST_fails:
  assumes "\<not> passes_checks w r"
  shows "files (fst (UploadSolutionPOST rt w r)) = files w"
  using assms
  by (auto simp: passes_checks_def UploadSolutionPOST_def Let_def
           split: option.splits prod.splits sum.splits)

lemma UploadSolutionPOST_passes:
  assumes "passes_checks w r"
  shows "\<exists>hdr d. form_file r = Some (hdr, Inr d)
           \<and> UploadSolutionPOST rt w r =
               upload_persist rt
                 ((ParseMultipartForm w r)\<lparr>payload_reads := payload_reads (ParseMultipartForm w r) + 1\<rparr>)
                 (params r ''hexidcrackme'') (session_name r) (sanitize_HTML rt (form r ''info''))
                 hdr d"
  using assms
  by (auto simp: passes_checks_def UploadSolutionPOST_def Let_def
           split: option.splits prod.splits sum.splits)

lemma upload_persist_rejects:
  assumes "\<not> strings_HasPrefix
               (filepath_Clean (upload_safePath rt u
                  (Solution.HexId (fst (SolutionsByUserAndCrackMe
                     (fst (SolutionCreate (store w) (NewObjectID rt) (Now rt) i u h)) u h)))
                  (Filename hdr)))
               (GetSolutionPath (config rt) @ ''/'')"
  shows "upload_persist rt w h u i hdr d =
           (AddFlash (w\<lparr>store := fst (SolutionCreate (store w) (NewObjectID rt) (Now rt) i u h)\<rparr>)
              ''Invalid file path'' FlashError, NoResponse)"
proof -
  obtain st err where sc: "SolutionCreate (store w) (NewObjectID rt) (Now rt) i u h = (st, err)"
    by (cases "SolutionCreate (store w) (NewObjectID rt) (Now rt) i u h")
  obtain sol e where sl: "SolutionsByUserAndCrackMe st u h = (sol, e)"
    by (cases "SolutionsByUserAndCrackMe st u h")
  from assms show ?thesis
    by (simp add: upload_persist_def sc sl Let_def)
qed

lemma upload_persist_writes:
  assumes "strings_HasPrefix
             (filepath_Clean (upload_safePath rt u
                (Solution.HexId (fst (SolutionsByUserAndCrackMe
                   (fst (SolutionCreate (store w) (NewObjectID rt) (Now rt) i u h)) u h)))
                (Filename hdr)))
             (GetSolutionPath (config rt) @ ''/'')"
  shows "files (fst (upload_persist rt w h u i hdr d)) = files w
       \<or> files (fst (upload_persist rt w h u i hdr d))
           = (files w)(upload_safePath rt u
                (Solution.HexId (fst (SolutionsByUserAndCrackMe
                   (fst (SolutionCreate (store w) (NewObjectID rt) (Now rt) i u h)) u h)))
                (Filename hdr) \<mapsto> d)"
proof -
  obtain st err where sc: "SolutionCreate (store w) (NewObjectID rt) (Now rt) i u h = (st, err)"
    by (cases "SolutionCreate (store w) (NewObjectID rt) (Now rt) i u h")
  obtain sol e where sl: "SolutionsByUserAndCrackMe st u h = (sol, e)"
    by (cases "SolutionsByUserAndCrackMe st u h")
  let ?p = "upload_safePath rt u (Solution.HexId sol) (Filename hdr)"
  let ?w1 = "w\<lparr>store := st\<rparr>"
  have chk: "strings_HasPrefix (filepath_Clean ?p) (GetSolutionPath (config rt) @ ''/'')"
    using assms by (simp add: sc sl)
  obtain w2 e2 where wf: "os_WriteFile ?w1 ?p d = (w2, e2)"
    by (cases "os_WriteFile ?w1 ?p d")
  note f = os_WriteFile_fields [OF wf]
  show ?thesis
  proof (cases e2)
    case (Some er)
    then have "upload_persist rt w h u i hdr d =
        (AddFlash w2 ''An error occurred on the server. Please try again later.'' FlashError, Body er)"
      using chk by (simp add: upload_persist_def sc sl wf Let_def)
    moreover have "files w2 = files w" using f Some by simp
    ultimately show ?thesis by simp
  next
    case None
    then have fw: "files w2 = (files w)(?p \<mapsto> d)" using f by simp
    have "\<exists>w3. upload_persist rt w h u i hdr d =
        (AddFlash w3 ''Solution uploaded! Should be available soon.'' FlashSuccess,
         Redirect (''/user/'' @ u)) \<and> files w3 = files w2"
      using chk None
      by (auto simp: upload_persist_def sc sl wf Let_def split: prod.splits)
    then obtain w3 where "upload_persist rt w h u i hdr d =
        (AddFlash w3 ''Solution uploaded! Should be available soon.'' FlashSuccess,
         Redirect (''/user/'' @ u))" and "files w3 = files w2" by blast
    with fw show ?thesis by (simp add: sc sl)
  qed
qed

text \<open>A request that passes the first checks: the path checked and written is
  \<open>built_path\<close>; when it fails the check, the handler returns with the flash and
  nothing but the record \<open>SolutionCreate\<close> has stored; else the disk changes at that
  path or not at all.\<close>

lemma upload_run_rejected:
  assumes pc: "passes_checks w r"
      and bad: "\<not> strings_HasPrefix (filepath_Clean (built_path rt w r))
                    (GetSolutionPath (config rt) @ ''/'')"
  shows "UploadSolutionPOST rt w r =
           (AddFlash ((ParseMultipartForm w r)\<lparr>payload_reads := payload_reads (ParseMultipartForm w r) + 1,
                         store := stored_after_create rt w r\<rparr>)
              ''Invalid file path'' FlashError, NoResponse)"
proof -
  from UploadSolutionPOST_passes [OF pc, of rt] obtain hdr d where
    ff: "form_file r = Some (hdr, Inr d)" and
    run: "UploadSolutionPOST rt w r =
            upload_persist rt
              ((ParseMultipartForm w r)\<lparr>payload_reads := payload_reads (ParseMultipartForm w r) + 1\<rparr>)
              (params r ''hexidcrackme'') (session_name r) (sanitize_HTML rt (form r ''info''))
              hdr d"
    by blast
  have bp: "built_path rt w r =
      upload_safePath rt (session_name r)
        (Solution.HexId (fst (SolutionsByUserAndCrackMe (stored_after_create rt w r)
                                (session_name r) (params r ''hexidcrackme''))))
        (Filename hdr)"
    by (simp add: built_path_safePath ff)
  show ?thesis
    unfolding run
    using bad upload_persist_rejects [where rt = rt and u = "session_name r"
        and w = "(ParseMultipartForm w r)\<lparr>payload_reads := payload_reads (ParseMultipartForm w r) + 1\<rparr>"
        and i = "sanitize_HTML rt (form r ''info'')" and h = "params r ''hexidcrackme''"
        and hdr = hdr and d = d]
    by (simp add: bp stored_after_create_def)
qed

lemma upload_run_checked:
  assumes pc: "passes_checks w r"
      and good: "strings_HasPrefix (filepath_Clean (built_path rt w r))
                    (GetSolutionPath (config rt) @ ''/'')"
  shows "files (fst (UploadSolutionPOST rt w r)) = files w
       \<or> (\<exists>d. files (fst (UploadSolutionPOST rt w r)) = (files w)(built_path rt w r \<mapsto> d))"
proof -
  from UploadSolutionPOST_passes [OF pc, of rt] obtain hdr d where
    ff: "form_file r = Some (hdr, Inr d)" and
    run: "UploadSolutionPOST rt w r =
            upload_persist rt
              ((ParseMultipartForm w r)\<lparr>payload_reads := payload_reads (ParseMultipartForm w r) + 1\<rparr>)
              (params r ''hexidcrackme'') (session_name r) (sanitize_HTML rt (form r ''info''))
              hdr d"
    by blast
  have bp: "built_path rt w r =
      upload_safePath rt (session_name r)
        (Solution.HexId (fst (SolutionsByUserAndCrackMe (stored_after_create rt w r)
                                (session_name r) (params r ''hexidcrackme''))))
        (Filename hdr)"
    by (simp add: built_path_safePath ff)
  show ?thesis
    unfolding run
    using good upload_persist_writes [where rt = rt and u = "session_name r"
        and w = "(ParseMultipartForm w r)\<lparr>payload_reads := payload_reads (ParseMultipartForm w r) + 1\<rparr>"
        and i = "sanitize_HTML rt (form r ''info'')" and h = "params r ''hexidcrackme''"
        and hdr = hdr and d = d]
    by (auto simp: bp stored_after_create_def)
qed

lemma UploadSolutionPOST_files:
  assumes ch: "files (fst (UploadSolutionPOST rt w r)) p \<noteq> files w p"
  shows "passes_checks w r \<and> p = built_path rt w r
       \<and> strings_HasPrefix (filepath_Clean (built_path rt w r)) (GetSolutionPath (config rt) @ ''/'')"
proof -
  from ch have ne: "files (fst (UploadSolutionPOST rt w r)) \<noteq> files w" by auto
  have pc: "passes_checks w r"
    using UploadSolutionPOST_fails [of w r rt] ne by blast
  have good: "strings_HasPrefix (filepath_Clean (built_path rt w r))
                (GetSolutionPath (config rt) @ ''/'')"
  proof (rule ccontr)
    assume "\<not> strings_HasPrefix (filepath_Clean (built_path rt w r))
                (GetSolutionPath (config rt) @ ''/'')"
    from upload_run_rejected [OF pc this] have "files (fst (UploadSolutionPOST rt w r)) = files w"
      by simp
    with ne show False by simp
  qed
  from upload_run_checked [OF pc good] ne obtain d where
    "files (fst (UploadSolutionPOST rt w r)) = (files w)(built_path rt w r \<mapsto> d)" by blast
  with ch have "p = built_path rt w r"
    by (auto split: if_splits)
  with pc good show ?thesis by simp
qed

text \<open>
  C1. Whatever file name the client sends (and whatever the user name, the hex id and
  the sanitizer are), \<open>UploadSolutionPOST\<close> changes the disk only on a request that
  passes the first checks and only at the path it has built from the base name of the
  file, and that path is a cleaned path with the configured solution root followed
  by a separator as a proper prefix. When the root names a directory, the rest of the
  path consists of ordinary elements only, so it does not climb out of the root, and
  when the name built holds no separator, the path is the root, a separator and that
  name, whatever the root is. Otherwise the request is rejected: when the path built
  fails the check, the handler returns without an answer of its own, the flash
  "Invalid file path" is added and no file is changed; the record \<open>SolutionCreate\<close>
  has stored before the check stays in the store. For the file name \<open>solve.zip\<close>,
  which the sanitizer leaves as it is, the user alice and the hex id
  \<open>507f191e810c19729de860ea\<close> the name built is
  \<open>alice+++507f191e810c19729de860ea+++solve.zip\<close>.
\<close>

theorem upload_path_contained:
  "(\<forall>p. files (fst (UploadSolutionPOST rt w r)) p \<noteq> files w p \<longrightarrow>
        passes_checks w r \<and> p = built_path rt w r
      \<and> strict_prefix (GetSolutionPath (config rt) @ ''/'') p
      \<and> filepath_Clean p = p
      \<and> (names_directory (GetSolutionPath (config rt)) \<longrightarrow> below (GetSolutionPath (config rt)) p)
      \<and> (sep \<notin> set (built_name rt w r) \<longrightarrow>
            p = GetSolutionPath (config rt) @ ''/'' @ built_name rt w r))
   \<and> (passes_checks w r
      \<and> \<not> strings_HasPrefix (filepath_Clean (built_path rt w r))
            (GetSolutionPath (config rt) @ ''/'') \<longrightarrow>
        snd (UploadSolutionPOST rt w r) = NoResponse
      \<and> flashes (fst (UploadSolutionPOST rt w r)) = flashes w @ [Flash ''Invalid file path'' FlashError]
      \<and> files (fst (UploadSolutionPOST rt w r)) = files w
      \<and> store (fst (UploadSolutionPOST rt w r)) = stored_after_create rt w r)
   \<and> (sanitize_Name rt ''solve.zip'' = ''solve.zip'' \<longrightarrow>
        upload_name rt ''alice'' ''507f191e810c19729de860ea'' ''solve.zip''
          = ''alice+++507f191e810c19729de860ea+++solve.zip'')"
proof -
  let ?root = "GetSolutionPath (config rt)"
  have written: "passes_checks w r \<and> p = built_path rt w r
      \<and> strict_prefix (?root @ ''/'') p
      \<and> filepath_Clean p = p
      \<and> (names_directory ?root \<longrightarrow> below ?root p)
      \<and> (sep \<notin> set (built_name rt w r) \<longrightarrow> p = ?root @ ''/'' @ built_name rt w r)"
    if ch: "files (fst (UploadSolutionPOST rt w r)) p \<noteq> files w p" for p
  proof -
    from UploadSolutionPOST_files [OF ch] have pc: "passes_checks w r"
      and p: "p = built_path rt w r"
      and chk: "strings_HasPrefix (filepath_Clean p) (?root @ ''/'')" by simp_all
    have cl: "p = filepath_Clean (?root @ sep # built_name rt w r)"
      using p by (simp add: built_path_clean)
    have idem: "filepath_Clean p = p"
      using cl filepath_Clean_idem [of "?root @ sep # built_name rt w r"] by simp
    have pre: "prefix (?root @ [sep]) p"
      using chk idem by (simp add: strings_HasPrefix_def sep_def)
    have "p \<noteq> ?root @ [sep]"
      using filepath_Clean_no_trailing_sep [OF solution_root_nonempty,
          where p = "?root @ sep # built_name rt w r" and rt1 = rt] cl
      by simp
    with pre have strict: "strict_prefix (?root @ ''/'') p"
      by (simp add: strict_prefix_def sep_def)
    have bel: "below ?root p" if "names_directory ?root"
      using that pre cl clean_path_below [of ?root "?root @ sep # built_name rt w r"] by simp
    have exact: "p = ?root @ ''/'' @ built_name rt w r" if ns: "sep \<notin> set (built_name rt w r)"
    proof -
      have "ordinary (built_name rt w r)"
        using ns unfolding built_name_def by (rule upload_name_ordinary)
      from clean_single_element [OF solution_root_nonempty this] pre cl
      show ?thesis by (simp add: sep_def)
    qed
    from pc p strict idem bel exact show ?thesis by blast
  qed
  have rejected: "snd (UploadSolutionPOST rt w r) = NoResponse
      \<and> flashes (fst (UploadSolutionPOST rt w r)) = flashes w @ [Flash ''Invalid file path'' FlashError]
      \<and> files (fst (UploadSolutionPOST rt w r)) = files w
      \<and> store (fst (UploadSolutionPOST rt w r)) = stored_after_create rt w r"
    if "passes_checks w r" and "\<not> strings_HasPrefix (filepath_Clean (built_path rt w r)) (?root @ ''/'')"
    using upload_run_rejected [OF that] by simp
  have "filepath_Base ''solve.zip'' = ''solve.zip''"
    by (simp add: filepath_Base_def sep_def)
  then have named: "upload_name rt ''alice'' ''507f191e810c19729de860ea'' ''solve.zip''
          = ''alice+++507f191e810c19729de860ea+++solve.zip''"
    if "sanitize_Name rt ''solve.zip'' = ''solve.zip''"
    using that by (simp add: upload_name_def)
  from written rejected named show ?thesis by blast
qed

text \<open>The sample run, evaluated.\<close>

lemma sample_root: "GetSolutionPath (config sample_runtime) = ''tmp/solution''"
  by (simp add: GetSolutionPath_def config_def Configure_def sample_runtime_def)

lemma sample_lookup:
  "CrackmeByHexId (sample_store\<lparr>coll_solution := ss\<rparr>) ''aaaaaaaaaaaaaaaaaaaaaaaa''
     = (sample_crackme, None)"
  by (simp add: CrackmeByHexId_def CheckConnection_def sample_store_def sample_crackme_def)

lemma sample_connected: "connected (sample_store\<lparr>coll_solution := ss\<rparr>)"
  by (simp add: sample_store_def)

lemma sample_store_solutions: "sample_store\<lparr>coll_solution := []\<rparr> = sample_store"
  by (simp add: sample_store_def)

lemma sample_no_solution:
  "SolutionsByUserAndCrackMe sample_store u ''aaaaaaaaaaaaaaaaaaaaaaaa''
     = (Solution_zero, Some ErrNoDocuments)"
proof -
  have "SolutionsByUserAndCrackMe (sample_store\<lparr>coll_solution := []\<rparr>) u
          ''aaaaaaaaaaaaaaaaaaaaaaaa'' = (Solution_zero, Some ErrNoDocuments)"
    by (simp add: SolutionsByUserAndCrackMe_def sample_lookup sample_connected
          CheckConnection_def FindOne_def Decode_def)
  then show ?thesis by (simp add: sample_store_solutions)
qed

lemma sample_sanitizers:
  "sanitize_Name sample_runtime s = s" "sanitize_HTML sample_runtime s = s"
  "NewObjectID sample_runtime = ObjectID ''507f191e810c19729de860ea''" "Now sample_runtime = 1000"
  by (simp_all add: sample_runtime_def)

lemma sample_upload_named_fields:
  "params (sample_upload_named u f) ''hexidcrackme'' = ''aaaaaaaaaaaaaaaaaaaaaaaa''"
  "session_name (sample_upload_named u f) = u"
  "form (sample_upload_named u f) k = []"
  "form_file (sample_upload_named u f) = Some (\<lparr>Filename = f, Size = 2\<rparr>, Inr ''PK'')"
  "recaptcha_verified (sample_upload_named u f)"
  by (simp_all add: sample_upload_named_def)

lemma sample_world_fields:
  "store sample_world = sample_store" "files sample_world = Map.empty"
  "refuses sample_world p = False" "flashes sample_world = []"
  by (simp_all add: sample_world_def)

lemma sample_create_by:
  "SolutionCreate sample_store (ObjectID ''507f191e810c19729de860ea'') 1000 [] u
     ''aaaaaaaaaaaaaaaaaaaaaaaa''
     = (sample_store\<lparr>coll_solution := [sample_solution\<lparr>Solution.Author := u\<rparr>]\<rparr>, None)"
proof -
  have l: "CrackmeByHexId sample_store ''aaaaaaaaaaaaaaaaaaaaaaaa'' = (sample_crackme, None)"
    using sample_lookup [of "[]"] by (simp add: sample_store_solutions)
  have c: "connected sample_store"
    by (simp add: sample_store_def)
  have ins: "coll_solution_update (\<lambda>coll. coll @ [x]) sample_store
               = sample_store\<lparr>coll_solution := [x]\<rparr>" for x
    by (simp add: sample_store_def)
  show ?thesis
    by (simp add: SolutionCreate_def l c CheckConnection_def InsertOne_def ins
        standardizeError_def sample_solution_def sample_crackme_def)
qed

lemma sample_found_by:
  assumes "u \<noteq> []"
  shows "SolutionsByUserAndCrackMe
           (sample_store\<lparr>coll_solution := [sample_solution\<lparr>Solution.Author := u\<rparr>]\<rparr>) u
           ''aaaaaaaaaaaaaaaaaaaaaaaa'' = (sample_solution\<lparr>Solution.Author := u\<rparr>, None)"
proof -
  have "doc_matches m [(''crackmeid'', BObjectID (Crackme.ObjectId sample_crackme)),
          (''author'', BString u)] (Solution_bson (sample_solution\<lparr>Solution.Author := u\<rparr>))" for m
    using assms
    by (simp add: solution_crackme_author_filter sample_solution_def sample_crackme_def
          NilObjectID_def)
  then show ?thesis
    by (simp add: SolutionsByUserAndCrackMe_def sample_lookup sample_connected
          CheckConnection_def FindOne_def Decode_def)
qed

lemma sample_hex:
  "Solution.HexId (sample_solution\<lparr>Solution.Author := u\<rparr>) = ''507f191e810c19729de860ea''"
  by (simp add: sample_solution_def)

lemma sample_passes: "passes_checks sample_world (sample_upload_named u f)"
  by (simp add: passes_checks_def sample_upload_named_fields sample_world_fields
        sample_no_solution)

lemma sample_stored:
  "stored_after_create sample_runtime sample_world (sample_upload_named u f)
     = sample_store\<lparr>coll_solution := [sample_solution\<lparr>Solution.Author := u\<rparr>]\<rparr>"
  by (simp add: stored_after_create_def sample_upload_named_fields sample_world_fields
        sample_sanitizers sample_create_by)

lemma sample_built_name:
  assumes "u \<noteq> []"
  shows "built_name sample_runtime sample_world (sample_upload_named u f)
           = upload_name sample_runtime u ''507f191e810c19729de860ea'' f"
  using assms
  by (simp add: built_name_def sample_stored sample_upload_named_fields sample_found_by
        sample_hex)

lemma sample_built_path:
  assumes "u \<noteq> []"
  shows "built_path sample_runtime sample_world (sample_upload_named u f)
           = upload_safePath sample_runtime u ''507f191e810c19729de860ea'' f"
  using assms by (simp add: built_path_def sample_built_name upload_safePath_def)

lemma sample_name:
  "upload_name sample_runtime ''alice'' ''507f191e810c19729de860ea'' ''../../etc/passwd''
     = ''alice+++507f191e810c19729de860ea+++passwd''"
  by (simp add: upload_name_def filepath_Base_def sep_def sample_sanitizers)

lemma sample_path:
  "upload_safePath sample_runtime ''alice'' ''507f191e810c19729de860ea'' ''../../etc/passwd''
     = ''tmp/solution/alice+++507f191e810c19729de860ea+++passwd''"
  by (simp add: upload_safePath_def upload_name_def filepath_Base_def filepath_Join_def
        filepath_Clean_def clean_elems_def clean_step.simps sample_root sep_def sample_sanitizers)

lemma escape_path:
  "upload_safePath sample_runtime ''../mallory'' ''507f191e810c19729de860ea'' ''solve.zip''
     = ''tmp/mallory+++507f191e810c19729de860ea+++solve.zip''"
  by (simp add: upload_safePath_def upload_name_def filepath_Base_def filepath_Join_def
        filepath_Clean_def clean_elems_def clean_step.simps sample_root sep_def sample_sanitizers)

lemma sample_persist:
  "files (fst (upload_persist sample_runtime (sample_world\<lparr>payload_reads := n\<rparr>)
       ''aaaaaaaaaaaaaaaaaaaaaaaa'' ''alice'' [] \<lparr>Filename = ''../../etc/passwd'', Size = 2\<rparr> ''PK''))
     = [''tmp/solution/alice+++507f191e810c19729de860ea+++passwd'' \<mapsto> ''PK'']"
proof -
  have cl: "filepath_Clean ''tmp/solution/alice+++507f191e810c19729de860ea+++passwd''
              = ''tmp/solution/alice+++507f191e810c19729de860ea+++passwd''"
    using filepath_Clean_idem [of "GetSolutionPath (config sample_runtime) @ sep #
        upload_name sample_runtime ''alice'' ''507f191e810c19729de860ea'' ''../../etc/passwd''"]
    by (simp add: upload_safePath_clean [symmetric] sample_path)
  show ?thesis
    by (simp add: upload_persist_def sample_world_fields sample_sanitizers sample_create_by
          sample_found_by sample_hex sample_path cl sample_root strings_HasPrefix_def
          os_WriteFile_def sample_lookup Let_def split: prod.splits)
qed

lemma sample_traversal_run:
  "files (fst (UploadSolutionPOST sample_runtime sample_world
       (sample_upload_named ''alice'' ''../../etc/passwd'')))
     = [''tmp/solution/alice+++507f191e810c19729de860ea+++passwd'' \<mapsto> ''PK'']"
  by (simp add: UploadSolutionPOST_def ParseMultipartForm_def sample_upload_named_fields
        sample_world_fields sample_no_solution sample_sanitizers sample_persist Let_def)

text \<open>
  Alice uploads a file under the name \<open>../../etc/passwd\<close>: it is written to
  \<open>tmp/solution/alice+++507f191e810c19729de860ea+++passwd\<close>, below the default root.
  A user whose name is \<open>../mallory\<close> uploads \<open>solve.zip\<close>: the path built,
  \<open>tmp/mallory+++507f191e810c19729de860ea+++solve.zip\<close>, fails the check, the request
  ends with the flash "Invalid file path" and without a file written, and the
  record of the solution is in the store.
\<close>

theorem upload_path_contained_witness:
  "files (fst (UploadSolutionPOST sample_runtime sample_world
       (sample_upload_named ''alice'' ''../../etc/passwd'')))
     ''tmp/solution/alice+++507f191e810c19729de860ea+++passwd''
     \<noteq> files sample_world ''tmp/solution/alice+++507f191e810c19729de860ea+++passwd''
   \<and> passes_checks sample_world (sample_upload_named ''alice'' ''../../etc/passwd'')
   \<and> built_path sample_runtime sample_world (sample_upload_named ''alice'' ''../../etc/passwd'')
       = ''tmp/solution/alice+++507f191e810c19729de860ea+++passwd''
   \<and> strict_prefix ''tmp/solution/'' ''tmp/solution/alice+++507f191e810c19729de860ea+++passwd''
   \<and> filepath_Clean ''tmp/solution/alice+++507f191e810c19729de860ea+++passwd''
       = ''tmp/solution/alice+++507f191e810c19729de860ea+++passwd''
   \<and> names_directory (GetSolutionPath (config sample_runtime))
   \<and> below ''tmp/solution'' ''tmp/solution/alice+++507f191e810c19729de860ea+++passwd''
   \<and> sep \<notin> set (built_name sample_runtime sample_world
                   (sample_upload_named ''alice'' ''../../etc/passwd''))
   \<and> ''tmp/solution/alice+++507f191e810c19729de860ea+++passwd''
       = ''tmp/solution'' @ ''/'' @ built_name sample_runtime sample_world
                                    (sample_upload_named ''alice'' ''../../etc/passwd'')
   \<and> passes_checks sample_world (sample_upload_named ''../mallory'' ''solve.zip'')
   \<and> built_path sample_runtime sample_world (sample_upload_named ''../mallory'' ''solve.zip'')
       = ''tmp/mallory+++507f191e810c19729de860ea+++solve.zip''
   \<and> \<not> strings_HasPrefix
         (filepath_Clean (built_path sample_runtime sample_world
                            (sample_upload_named ''../mallory'' ''solve.zip'')))
         ''tmp/solution/''
   \<and> snd (UploadSolutionPOST sample_runtime sample_world
            (sample_upload_named ''../mallory'' ''solve.zip'')) = NoResponse
   \<and> flashes (fst (UploadSolutionPOST sample_runtime sample_world
            (sample_upload_named ''../mallory'' ''solve.zip'')))
       = [Flash ''Invalid file path'' FlashError]
   \<and> files (fst (UploadSolutionPOST sample_runtime sample_world
            (sample_upload_named ''../mallory'' ''solve.zip''))) = Map.empty
   \<and> coll_solution (store (fst (UploadSolutionPOST sample_runtime sample_world
            (sample_upload_named ''../mallory'' ''solve.zip''))))
       = [sample_solution\<lparr>Solution.Author := ''../mallory''\<rparr>]
   \<and> sanitize_Name sample_runtime ''solve.zip'' = ''solve.zip''
   \<and> upload_name sample_runtime ''alice'' ''507f191e810c19729de860ea'' ''solve.zip''
       = ''alice+++507f191e810c19729de860ea+++solve.zip''"
proof -
  let ?a = "sample_upload_named ''alice'' ''../../etc/passwd''"
  let ?m = "sample_upload_named ''../mallory'' ''solve.zip''"
  let ?p = "''tmp/solution/alice+++507f191e810c19729de860ea+++passwd''"
  let ?root = "GetSolutionPath (config sample_runtime)"
  note on_a = upload_path_contained [of sample_runtime sample_world ?a]
  note on_m = upload_path_contained [of sample_runtime sample_world ?m]
  have ch: "files (fst (UploadSolutionPOST sample_runtime sample_world ?a)) ?p
              \<noteq> files sample_world ?p"
    by (simp add: sample_traversal_run sample_world_fields)
  have nd: "names_directory ?root"
    by (simp add: sample_root names_directory_def ordinary_def sep_def)
  have bn: "built_name sample_runtime sample_world ?a = ''alice+++507f191e810c19729de860ea+++passwd''"
    by (simp add: sample_built_name sample_name)
  have ns: "sep \<notin> set (built_name sample_runtime sample_world ?a)"
    by (simp add: bn sep_def)
  have sn: "sanitize_Name sample_runtime ''solve.zip'' = ''solve.zip''"
    by (simp add: sample_sanitizers)
  from on_a ch have A:
    "passes_checks sample_world ?a \<and> ?p = built_path sample_runtime sample_world ?a
     \<and> strict_prefix (?root @ ''/'') ?p
     \<and> filepath_Clean ?p = ?p
     \<and> (names_directory ?root \<longrightarrow> below ?root ?p)
     \<and> (sep \<notin> set (built_name sample_runtime sample_world ?a) \<longrightarrow>
           ?p = ?root @ ''/'' @ built_name sample_runtime sample_world ?a)"
    by blast
  from A have a1: "passes_checks sample_world ?a" by (elim conjE)
  from A have "?p = built_path sample_runtime sample_world ?a" by (elim conjE)
  then have a2: "built_path sample_runtime sample_world ?a = ?p" by (rule sym)
  from A have "strict_prefix (?root @ ''/'') ?p" by (elim conjE)
  then have a3: "strict_prefix ''tmp/solution/'' ?p"
    unfolding sample_root by simp
  from A have a4: "filepath_Clean ?p = ?p" by (elim conjE)
  from A have "names_directory ?root \<longrightarrow> below ?root ?p" by (elim conjE)
  from this nd have "below ?root ?p" by (rule mp)
  then have a5: "below ''tmp/solution'' ?p"
    unfolding sample_root .
  from A have "sep \<notin> set (built_name sample_runtime sample_world ?a) \<longrightarrow>
      ?p = ?root @ ''/'' @ built_name sample_runtime sample_world ?a" by (elim conjE)
  from this ns have "?p = ?root @ ''/'' @ built_name sample_runtime sample_world ?a" by (rule mp)
  then have a6: "?p = ''tmp/solution'' @ ''/'' @ built_name sample_runtime sample_world ?a"
    unfolding sample_root .
  have pm: "passes_checks sample_world ?m" by (rule sample_passes)
  have bm: "built_path sample_runtime sample_world ?m
              = ''tmp/mallory+++507f191e810c19729de860ea+++solve.zip''"
    by (simp add: sample_built_path escape_path)
  have clm: "filepath_Clean ''tmp/mallory+++507f191e810c19729de860ea+++solve.zip''
              = ''tmp/mallory+++507f191e810c19729de860ea+++solve.zip''"
    using filepath_Clean_idem [of "GetSolutionPath (config sample_runtime) @ sep #
        upload_name sample_runtime ''../mallory'' ''507f191e810c19729de860ea'' ''solve.zip''"]
    by (simp add: upload_safePath_clean [symmetric] escape_path)
  have bad: "\<not> strings_HasPrefix (filepath_Clean (built_path sample_runtime sample_world ?m))
                  (?root @ ''/'')"
    by (simp add: bm clm sample_root strings_HasPrefix_def)
  then have bad': "\<not> strings_HasPrefix (filepath_Clean (built_path sample_runtime sample_world ?m))
                  ''tmp/solution/''"
    by (simp add: sample_root)
  from on_m pm bad have M:
    "snd (UploadSolutionPOST sample_runtime sample_world ?m) = NoResponse
     \<and> flashes (fst (UploadSolutionPOST sample_runtime sample_world ?m))
         = flashes sample_world @ [Flash ''Invalid file path'' FlashError]
     \<and> files (fst (UploadSolutionPOST sample_runtime sample_world ?m)) = files sample_world
     \<and> store (fst (UploadSolutionPOST sample_runtime sample_world ?m))
         = stored_after_create sample_runtime sample_world ?m"
    by blast
  from M have m1: "snd (UploadSolutionPOST sample_runtime sample_world ?m) = NoResponse"
    by (elim conjE)
  have m2: "flashes (fst (UploadSolutionPOST sample_runtime sample_world ?m))
              = [Flash ''Invalid file path'' FlashError]"
    using M by (simp add: sample_world_fields)
  have m3: "files (fst (UploadSolutionPOST sample_runtime sample_world ?m)) = Map.empty"
    using M by (simp add: sample_world_fields)
  have m4: "coll_solution (store (fst (UploadSolutionPOST sample_runtime sample_world ?m)))
              = [sample_solution\<lparr>Solution.Author := ''../mallory''\<rparr>]"
    using M by (simp add: sample_stored)
  from on_a sn have nm: "upload_name sample_runtime ''alice'' ''507f191e810c19729de860ea'' ''solve.zip''
       = ''alice+++507f191e810c19729de860ea+++solve.zip''"
    by blast
  show ?thesis
    by (intro conjI) (fact ch a1 a2 a3 a4 nd a5 ns a6 pm bm bad' m1 m2 m3 m4 sn nm)+
qed

subsection \<open>The counts per crackme\<close>

lemma comment_crackme_visible_filter:
  "doc_matches rx [(''crackmehexid'', BString h), (''visible'', BBool True)] (Comment_bson c)
     = counted_comment h c"
  by (auto simp: doc_matches_def Comment_bson_def omitempty_def counted_comment_def)

lemma solution_crackme_visible_filter:
  "doc_matches rx [(''crackmeid'', BObjectID i), (''visible'', BBool True)] (Solution_bson s)
     = (Solution.CrackmeId s = i \<and> i \<noteq> NilObjectID \<and> Solution.Visible s)"
  by (auto simp: doc_matches_def Solution_bson_def omitempty_def)

text \<open>
  C4, as the code has it. On a reachable store \<open>CountCommentsByCrackme\<close> and
  \<open>CountSolutionsByCrackme\<close> return, without error, the number of the crackme's
  comments, respectively solutions, that are visible. The flag \<open>deleted\<close> is not
  consulted: an entity that is not visible is never counted, whatever its flag
  \<open>deleted\<close> says.
\<close>

theorem counts_by_crackme_visible_only:
  assumes "CheckConnection st"
  shows "CountCommentsByCrackme st h
           = (int (length (filter (counted_comment h) (coll_comment st))), None)
       \<and> CountSolutionsByCrackme st h
           = (int (length (filter (counted_solution h) (coll_solution st))), None)
       \<and> (\<forall>c. \<not> Comment.Visible c \<longrightarrow> \<not> counted_comment h c)
       \<and> (\<forall>s. \<not> Solution.Visible s \<longrightarrow> \<not> counted_solution h s)"
proof -
  have conn: "connected st" using assms by (simp add: CheckConnection_def)
  have "CountCommentsByCrackme st h
           = (int (length (filter (counted_comment h) (coll_comment st))), None)"
    using assms conn
    by (simp add: CountCommentsByCrackme_def CountDocuments_def standardizeError_def
          comment_crackme_visible_filter)
  moreover have "CountSolutionsByCrackme st h
           = (int (length (filter (counted_solution h) (coll_solution st))), None)"
    using assms conn
    by (simp add: CountSolutionsByCrackme_def CountDocuments_def standardizeError_def
          solution_crackme_visible_filter counted_solution_def [abs_def] split: prod.splits)
  ultimately show ?thesis
    by (simp add: counted_comment_def counted_solution_def)
qed

text \<open>C4 as stated does not hold: a comment and a solution that are flagged as deleted
  and still visible are counted.\<close>

theorem counts_include_deleted:
  "coll_comment flagged_store = [deleted_comment]
   \<and> Comment.Deleted deleted_comment
   \<and> CountCommentsByCrackme flagged_store ''aaaaaaaaaaaaaaaaaaaaaaaa'' = (1, None)
   \<and> coll_solution flagged_store = [deleted_solution]
   \<and> Solution.Deleted deleted_solution
   \<and> CountSolutionsByCrackme flagged_store ''aaaaaaaaaaaaaaaaaaaaaaaa'' = (1, None)"
proof -
  have conn: "connected flagged_store"
    by (simp add: flagged_store_def sample_store_def)
  have hex: "ObjectIDFromHex ''aaaaaaaaaaaaaaaaaaaaaaaa''
               = (ObjectID ''aaaaaaaaaaaaaaaaaaaaaaaa'', None)"
    by (simp add: ObjectIDFromHex_def is_hex_digit_def ascii_lower_def)
  have cs: "coll_comment flagged_store = [deleted_comment]"
    and ss: "coll_solution flagged_store = [deleted_solution]"
    by (simp_all add: flagged_store_def)
  have c: "counted_comment ''aaaaaaaaaaaaaaaaaaaaaaaa'' deleted_comment"
    by (simp add: counted_comment_def deleted_comment_def)
  have s: "Solution.CrackmeId deleted_solution = ObjectID ''aaaaaaaaaaaaaaaaaaaaaaaa''"
     "Solution.Visible deleted_solution"
    by (simp_all add: deleted_solution_def)
  have "CountCommentsByCrackme flagged_store ''aaaaaaaaaaaaaaaaaaaaaaaa'' = (1, None)"
    by (simp add: CountCommentsByCrackme_def CheckConnection_def CountDocuments_def conn cs c
          standardizeError_def comment_crackme_visible_filter)
  moreover have "CountSolutionsByCrackme flagged_store ''aaaaaaaaaaaaaaaaaaaaaaaa'' = (1, None)"
    by (simp add: CountSolutionsByCrackme_def CheckConnection_def CountDocuments_def conn ss s
          hex standardizeError_def solution_crackme_visible_filter NilObjectID_def)
  ultimately show ?thesis
    by (simp add: cs ss deleted_comment_def deleted_solution_def)
qed

text \<open>The counts on the store above, and the same two entities once made invisible.\<close>

theorem counts_by_crackme_visible_only_witness:
  "CheckConnection flagged_store
   \<and> CountCommentsByCrackme flagged_store ''aaaaaaaaaaaaaaaaaaaaaaaa''
       = (int (length (filter (counted_comment ''aaaaaaaaaaaaaaaaaaaaaaaa'')
            (coll_comment flagged_store))), None)
   \<and> \<not> Comment.Visible (deleted_comment\<lparr>Comment.Visible := False\<rparr>)
   \<and> \<not> counted_comment ''aaaaaaaaaaaaaaaaaaaaaaaa'' (deleted_comment\<lparr>Comment.Visible := False\<rparr>)
   \<and> \<not> Solution.Visible (deleted_solution\<lparr>Solution.Visible := False\<rparr>)
   \<and> \<not> counted_solution ''aaaaaaaaaaaaaaaaaaaaaaaa'' (deleted_solution\<lparr>Solution.Visible := False\<rparr>)"
proof -
  have conn: "CheckConnection flagged_store"
    by (simp add: CheckConnection_def flagged_store_def sample_store_def)
  show ?thesis
    using counts_by_crackme_visible_only [OF conn, of "''aaaaaaaaaaaaaaaaaaaaaaaa''"] conn
    by simp
qed

subsection \<open>Looking a user up by name\<close>

lemma user_name_regex_filter:
  "doc_matches rx [(''name'', BRegex r)] (User_bson u)
     = (User.Name u \<noteq> [] \<and> rx r (User.Name u))"
  by (auto simp: doc_matches_def User_bson_def omitempty_def)

lemma user_email_regex_filter:
  "doc_matches rx [(''email'', BRegex r)] (User_bson u)
     = (User.Email u \<noteq> [] \<and> rx r (User.Email u))"
  by (auto simp: doc_matches_def User_bson_def omitempty_def)

lemma literal_matcher_folds_case: "folds_case literal_matcher"
proof -
  have "anchored_text (''^'' @ t @ ''$'') = Some t" if "list_all is_alnum t" for t
    using that by (simp add: anchored_text_def butlast_append)
  then show ?thesis
    by (simp add: folds_case_def literal_matcher_def)
qed

lemma UserByName_find:
  assumes "CheckConnection st" and "folds_case (matcher st)" and "list_all is_alnum name"
  shows "UserByName st name =
           (case find (\<lambda>u. User.Name u \<noteq> [] \<and> same_up_to_case name (User.Name u)) (coll_user st) of
              None \<Rightarrow> (User_zero, Some ErrNoResult)
            | Some u \<Rightarrow> (u, None))"
proof -
  have rx: "matcher st (Regex (CHR ''^'' # name @ ''$'') ''i'') s = same_up_to_case name s" for s
    using assms(2,3) by (simp add: folds_case_def same_up_to_case_def)
  have conn: "connected st" using assms(1) by (simp add: CheckConnection_def)
  show ?thesis
    using assms(1) conn
    by (simp add: UserByName_def FindOne_def Decode_def standardizeError_def
          user_name_regex_filter rx Let_def)
       (simp split: option.split)
qed

lemma UserByMail_find:
  assumes "CheckConnection st" and "folds_case (matcher st)" and "list_all is_alnum email"
  shows "UserByMail st email =
           (case find (\<lambda>u. User.Email u \<noteq> [] \<and> same_up_to_case email (User.Email u)) (coll_user st) of
              None \<Rightarrow> (User_zero, Some ErrNoResult)
            | Some u \<Rightarrow> (u, None))"
proof -
  have rx: "matcher st (Regex (CHR ''^'' # email @ ''$'') ''i'') s = same_up_to_case email s" for s
    using assms(2,3) by (simp add: folds_case_def same_up_to_case_def)
  have conn: "connected st" using assms(1) by (simp add: CheckConnection_def)
  show ?thesis
    using assms(1) conn
    by (simp add: UserByMail_def FindOne_def Decode_def standardizeError_def
          user_email_regex_filter rx Let_def)
       (simp split: option.split)
qed

text \<open>
  C2 on the code. \<open>UserByName\<close> searches with the pattern \<open>^name$\<close> under the option
  \<open>i\<close>: in a store whose only user is named \<open>elvis\<close>, the lookup for \<open>Elvis\<close> returns
  that user, without error.
\<close>

theorem UserByName_ignores_case:
  "UserByName elvis_store ''Elvis'' = (elvis_user, None)
   \<and> User.Name elvis_user = ''elvis''
   \<and> ''Elvis'' \<noteq> ''elvis''"
proof -
  have conn: "CheckConnection elvis_store"
    by (simp add: CheckConnection_def elvis_store_def sample_store_def)
  have m: "folds_case (matcher elvis_store)"
    by (simp add: elvis_store_def sample_store_def literal_matcher_folds_case)
  have al: "list_all is_alnum ''Elvis''"
    by (simp add: is_alnum_def)
  have us: "coll_user elvis_store = [elvis_user]"
    by (simp add: elvis_store_def)
  have n: "User.Name elvis_user = ''elvis''"
    by (simp add: elvis_user_def)
  have s: "same_up_to_case ''Elvis'' ''elvis''"
    by (simp add: same_up_to_case_def ascii_lower_def)
  show ?thesis
    by (simp add: UserByName_find [OF conn m al] us n s)
qed

subsection \<open>The comment counter\<close>

lemma CommentCreate_keeps_crackmes:
  "coll_crackme (fst (CommentCreate st objId now content username hexid)) = coll_crackme st"
  by (auto simp: CommentCreate_def InsertOne_def Let_def split: prod.splits if_splits)

lemma NotificationAdd_keeps_crackmes:
  "coll_crackme (fst (NotificationAdd st now recipient message)) = coll_crackme st"
  by (auto simp: NotificationAdd_def InsertOne_def Let_def split: prod.splits if_splits)

lemma LeaveCommentPOST_keeps_crackmes:
  "coll_crackme (store (fst (LeaveCommentPOST rt w r))) = coll_crackme (store w)"
proof -
  obtain st err where cc: "CommentCreate (store w) (NewObjectID rt) (Now rt)
      (sanitize_HTML rt (form r ''comment'')) (session_name r) (params r ''hexid'') = (st, err)"
    by (cases "CommentCreate (store w) (NewObjectID rt) (Now rt)
      (sanitize_HTML rt (form r ''comment'')) (session_name r) (params r ''hexid'')")
  have st: "coll_crackme st = coll_crackme (store w)"
    using CommentCreate_keeps_crackmes [of "store w" "NewObjectID rt" "Now rt"
        "sanitize_HTML rt (form r ''comment'')" "session_name r" "params r ''hexid''"]
    by (simp add: cc)
  show ?thesis
    by (auto simp: LeaveCommentPOST_def Let_def cc st NotificationAdd_keeps_crackmes
          split: prod.splits bool.splits)
qed

text \<open>
  C3 on the code. Neither \<open>CommentCreate\<close> nor \<open>LeaveCommentPOST\<close> writes to the
  crackme collection. After alice's comment on the sample crackme has been created
  (the handler answers with the redirect), the crackme has one visible comment and
  its counter \<open>NbComments\<close> is 0 as before.
\<close>

theorem comment_leaves_counter:
  "snd (LeaveCommentPOST sample_runtime sample_world (sample_comment_by ''alice''))
     = Redirect ''/crackme/aaaaaaaaaaaaaaaaaaaaaaaa''
   \<and> length (filter (counted_comment ''aaaaaaaaaaaaaaaaaaaaaaaa'')
         (coll_comment (store (fst (LeaveCommentPOST sample_runtime sample_world
            (sample_comment_by ''alice'')))))) = 1
   \<and> coll_crackme (store (fst (LeaveCommentPOST sample_runtime sample_world
         (sample_comment_by ''alice'')))) = [sample_crackme]
   \<and> Crackme.HexId sample_crackme = ''aaaaaaaaaaaaaaaaaaaaaaaa''
   \<and> Crackme.NbComments sample_crackme = 0"
proof -
  let ?run = "LeaveCommentPOST sample_runtime sample_world (sample_comment_by ''alice'')"
  have sw: "store sample_world = sample_store"
    by (simp add: sample_world_def)
  have conn: "connected sample_store" and cs: "coll_comment sample_store = []"
    and cr: "coll_crackme sample_store = [sample_crackme]"
    by (simp_all add: sample_store_def)
  have look: "CrackmeByHexId sample_store ''aaaaaaaaaaaaaaaaaaaaaaaa'' = (sample_crackme, None)"
    by (simp add: CrackmeByHexId_def CheckConnection_def sample_store_def sample_crackme_def)
  have resp: "snd ?run = Redirect ''/crackme/aaaaaaaaaaaaaaaaaaaaaaaa''"
    by (simp add: LeaveCommentPOST_def Validate_def CommentCreate_def sw look conn Let_def
          CheckConnection_def InsertOne_def standardizeError_def sample_comment_by_def)
  have coms: "coll_comment (store (fst ?run)) =
      [\<lparr>Comment.ObjectId = NewObjectID sample_runtime,
        Content = sanitize_HTML sample_runtime ''nice one'', Author = ''alice'',
        CrackMeHexId = ''aaaaaaaaaaaaaaaaaaaaaaaa'', CrackmeName = Crackme.Name sample_crackme,
        CreatedAt = Now sample_runtime, Visible = True, Deleted = False\<rparr>]"
    by (simp add: LeaveCommentPOST_def Validate_def CommentCreate_def sw look conn cs Let_def
          CheckConnection_def InsertOne_def standardizeError_def sample_comment_by_def
          NotificationAdd_def AddFlash_def)
  have keep: "coll_crackme (store (fst ?run)) = [sample_crackme]"
    using LeaveCommentPOST_keeps_crackmes [of sample_runtime sample_world
        "sample_comment_by ''alice''"] by (simp add: sw cr)
  show ?thesis
    by (simp add: resp coms keep counted_comment_def sample_crackme_def)
qed

subsection \<open>An upload whose record cannot be stored\<close>

lemma offline_fields:
  "connected offline_store = False" "coll_solution offline_store = []"
  "store offline_world = offline_store" "files offline_world = Map.empty"
  "refuses offline_world p = False" "flashes offline_world = []"
  by (simp_all add: offline_store_def offline_world_def sample_store_def sample_world_def)

lemma offline_lookup: "CrackmeByHexId offline_store h = (Crackme_zero, Some ErrUnavailable)"
  by (simp add: CrackmeByHexId_def CheckConnection_def offline_fields)

lemma offline_no_solution:
  "SolutionsByUserAndCrackMe offline_store u h = (Solution_zero, Some ErrUnavailable)"
  by (simp add: SolutionsByUserAndCrackMe_def CheckConnection_def offline_fields offline_lookup)

lemma offline_create:
  "SolutionCreate offline_store objId now info u h = (offline_store, Some ErrUnavailable)"
  by (simp add: SolutionCreate_def offline_lookup standardizeError_def)

lemma sample_upload_fields:
  "params (sample_upload n) ''hexidcrackme'' = ''aaaaaaaaaaaaaaaaaaaaaaaa''"
  "session_name (sample_upload n) = ''alice''"
  "form (sample_upload n) k = []"
  "form_file (sample_upload n) = Some (\<lparr>Filename = ''solve.zip'', Size = n\<rparr>, Inr ''PK'')"
  "recaptcha_verified (sample_upload n)"
  by (simp_all add: sample_upload_def)

lemma offline_path:
  "upload_safePath sample_runtime ''alice'' [] ''solve.zip'' = ''tmp/solution/alice++++++solve.zip''"
  by (simp add: upload_safePath_def upload_name_def filepath_Base_def filepath_Join_def
        filepath_Clean_def clean_elems_def clean_step.simps sample_root sep_def sample_sanitizers)

text \<open>
  C5 on the code. With the store out of reach \<open>SolutionCreate\<close> fails; its error is
  logged and \<open>UploadSolutionPOST\<close> goes on: no solution record exists, yet the file
  is written (under a name with an empty hex id), the flash reports success and the
  client is redirected to the user's page.
\<close>

theorem upload_goes_on_after_failed_create:
  "SolutionCreate (store offline_world) (NewObjectID sample_runtime) (Now sample_runtime) []
       ''alice'' ''aaaaaaaaaaaaaaaaaaaaaaaa'' = (offline_store, Some ErrUnavailable)
   \<and> snd (UploadSolutionPOST sample_runtime offline_world (sample_upload 2))
       = Redirect ''/user/alice''
   \<and> flashes (fst (UploadSolutionPOST sample_runtime offline_world (sample_upload 2)))
       = [Flash ''Solution uploaded! Should be available soon.'' FlashSuccess]
   \<and> files (fst (UploadSolutionPOST sample_runtime offline_world (sample_upload 2)))
       = [''tmp/solution/alice++++++solve.zip'' \<mapsto> ''PK'']
   \<and> coll_solution (store (fst (UploadSolutionPOST sample_runtime offline_world (sample_upload 2))))
       = []"
proof -
  have cl: "filepath_Clean ''tmp/solution/alice++++++solve.zip''
              = ''tmp/solution/alice++++++solve.zip''"
    using filepath_Clean_idem [of "GetSolutionPath (config sample_runtime) @ sep #
        upload_name sample_runtime ''alice'' [] ''solve.zip''"]
    by (simp add: upload_safePath_clean [symmetric] offline_path)
  have zero: "Solution.HexId Solution_zero = []"
    by (simp add: Solution_zero_def)
  have persist: "upload_persist sample_runtime (offline_world\<lparr>payload_reads := n\<rparr>)
       ''aaaaaaaaaaaaaaaaaaaaaaaa'' ''alice'' [] \<lparr>Filename = ''solve.zip'', Size = 2\<rparr> ''PK''
     = (offline_world\<lparr>payload_reads := n, store := offline_store,
           files := [''tmp/solution/alice++++++solve.zip'' \<mapsto> ''PK''],
           flashes := [Flash ''Solution uploaded! Should be available soon.'' FlashSuccess]\<rparr>,
        Redirect ''/user/alice'')" for n
    by (simp add: upload_persist_def offline_fields offline_create offline_no_solution zero
          offline_path cl sample_root strings_HasPrefix_def os_WriteFile_def offline_lookup
          AddFlash_def Let_def)
  have run: "UploadSolutionPOST sample_runtime offline_world (sample_upload 2)
     = (offline_world\<lparr>payload_reads := payload_reads offline_world + 2, store := offline_store,
           files := [''tmp/solution/alice++++++solve.zip'' \<mapsto> ''PK''],
           flashes := [Flash ''Solution uploaded! Should be available soon.'' FlashSuccess]\<rparr>,
        Redirect ''/user/alice'')"
    by (simp add: UploadSolutionPOST_def ParseMultipartForm_def sample_upload_fields offline_fields
          offline_no_solution sample_sanitizers persist Let_def)
  show ?thesis
    by (simp add: run offline_fields offline_create)
qed

subsection \<open>Operations on an unreachable store\<close>

lemma guarded_operations_unavailable:
  assumes "\<not> CheckConnection st"
  shows "CountUsers st = (0, Some ErrUnavailable)"
    and "UserByName st name = (User_zero, Some ErrUnavailable)"
    and "UserByMail st email = (User_zero, Some ErrUnavailable)"
    and "UserByHexId st hexid = (User_zero, Some ErrUnavailable)"
    and "UserCreate st objId name email password = (st, Some ErrUnavailable)"
    and "CountCommentsByUser st name = (0, Some ErrUnavailable)"
    and "CountCommentsByCrackme st hexid = (0, Some ErrUnavailable)"
    and "CommentsByUser st name = ([], Some ErrUnavailable)"
    and "CommentCreate st objId now content name hexid = (st, Some ErrUnavailable)"
    and "CountSolutionsByUser st name = (0, Some ErrUnavailable)"
    and "CountSolutionsByCrackme st hexid = (0, Some ErrUnavailable)"
    and "SolutionByHexId st hexid = (Solution_zero, Some ErrUnavailable)"
    and "SolutionsByUserAndCrackMe st name hexid = (Solution_zero, Some ErrUnavailable)"
    and "SolutionCreate st objId now info name hexid = (st, Some ErrUnavailable)"
  using assms
  by (simp_all add: CountUsers_def UserByName_def UserByMail_def UserByHexId_def UserCreate_def
        CountCommentsByUser_def CountCommentsByCrackme_def CommentsByUser_def CommentCreate_def
        CountSolutionsByUser_def CountSolutionsByCrackme_def SolutionByHexId_def
        SolutionsByUserAndCrackMe_def SolutionCreate_def CrackmeByHexId_def standardizeError_def
        Let_def)

text \<open>
  C7 on the code. The operations above ask \<open>CheckConnection\<close> first and answer with
  the store-unavailable error. \<open>UpdateUserPassword\<close> does not: with the store out of
  reach it hands the update to the driver and returns the driver's error.
\<close>

theorem UpdateUserPassword_skips_connection_check:
  "\<not> CheckConnection offline_store
   \<and> UpdateUserPassword offline_store ''alice'' ''$2a$10$newhash'' = (offline_store, Some ErrDriver)
   \<and> ErrDriver \<noteq> ErrUnavailable
   \<and> CountUsers offline_store = (0, Some ErrUnavailable)"
proof -
  have off: "\<not> CheckConnection offline_store"
    by (simp add: CheckConnection_def offline_fields)
  have "UpdateUserPassword offline_store ''alice'' ''$2a$10$newhash'' = (offline_store, Some ErrDriver)"
    by (simp add: UpdateUserPassword_def UpdateOne_def offline_fields)
  with off guarded_operations_unavailable(1) [OF off] show ?thesis by simp
qed

end
